theory Spec2Isabelle
  imports Main
begin

section \<open>The host application as the hooks see it\<close>

text \<open>
  The hooks of tk-rumba are adapters between the pipeline toolkit and the scripting
  interface of the animation application. The application is not part of the repository,
  so the part of it the hooks touch is modelled here as data: the node tree of the active
  document, the frame plugs of the document, and the sequence of calls the hooks make into
  the application.

  A node answers \<open>full_document_name()\<close>, \<open>type_name()\<close>,
  \<open>reference_filename()\<close>, \<open>has_plug(name)\<close>, \<open>plug(name).as_string()\<close> and
  \<open>children()\<close>. String plugs are a map from plug names to values.
\<close>

datatype node =
  Node (full_document_name: string) (type_name: string) (reference_filename: string)
       (plugs: "string \<rightharpoonup> string") (children: "node list")

text \<open>
  The document is the root node of the tree; its four frame plugs hold integers.
\<close>

record document =
  root :: node
  start_frame :: int
  end_frame :: int
  range_start_frame :: int
  range_end_frame :: int

text \<open>
  Calls into the application that open or close an undo bracket or that change the
  document, in the order the hooks make them.
\<close>

datatype api_call =
    ModifyBegin string
  | ModifyEnd
  | ReplaceReference string string
  | PlugSetValue string string string
  | FrameSetValue string int
  | Reference string string
  | LoadNode string string
  | AddMediaLayer string
  | GetMedia string
  | AddMediaClip string string int

datatype callback = SaveAs | ShowFileSaveDlg

record action_button =
  label :: string
  tooltip :: string
  callback :: callback

datatype log_entry =
    Debug string
  | Info string
  | Warning string
  | Error string "action_button option"

text \<open>
  The state a hook runs against: \<open>rumba.active_document()\<close>,
  \<open>rumba.active_document_filename()\<close>, \<open>rumba.current_frame()\<close>, the paths for
  which \<open>os.path.exists\<close> holds, the extension lists \<open>rumba_media\<close> reports, the
  platform's \<open>os.path.sep\<close>, and the calls and log lines produced so far.
\<close>

record host =
  active_document :: "document option"
  active_document_filename :: string
  current_frame :: int
  existing_paths :: "string set"
  audio_formats :: "string list"
  image_formats :: "string list"
  video_formats :: "string list"
  path_sep :: char
  calls :: "api_call list"
  logged :: "log_entry list"

datatype error =
    KeyError string
  | AttributeError string
  | TypeError string
  | RuntimeError string
  | Exception string

datatype 'a outcome = Returned 'a | Raised error

definition api :: "api_call \<Rightarrow> host \<Rightarrow> host" where
  "api c h = h\<lparr>calls := calls h @ [c]\<rparr>"

definition emit :: "log_entry \<Rightarrow> host \<Rightarrow> host" where
  "emit e h = h\<lparr>logged := logged h @ [e]\<rparr>"

definition set_document :: "document \<Rightarrow> host \<Rightarrow> host" where
  "set_document d h = h\<lparr>active_document := Some d\<rparr>"

section \<open>hooks/tk-multi-setframerange/frame\_operations\_tk-rumba.py\<close>

text \<open>
  The arguments of \<open>set_frame_range\<close> default to \<open>None\<close>; \<open>int(None)\<close> raises
  \<open>TypeError\<close>.
\<close>

datatype pyarg = PyNone | PyInt int

definition py_int :: "pyarg \<Rightarrow> int outcome" where
  "py_int a = (case a of
       PyNone \<Rightarrow> Raised (TypeError ''int() argument must be a string or a number'')
     | PyInt i \<Rightarrow> Returned i)"

definition get_frame_range :: "host \<Rightarrow> int \<times> int" where
  "get_frame_range h =
     (case active_document h of
        None \<Rightarrow> (0, 0)
      | Some active_doc \<Rightarrow> (start_frame active_doc, end_frame active_doc))"

text \<open>
  \<open>active_doc.<plug>.set_value(v)\<close> on one of the frame plugs: the call is recorded and
  the plug of the active document holds \<open>v\<close> afterwards.
\<close>

definition frame_set_value :: "string \<Rightarrow> (document \<Rightarrow> document) \<Rightarrow> int \<Rightarrow> host \<Rightarrow> host" where
  "frame_set_value plug_name upd v h =
     api (FrameSetValue plug_name v)
       (case active_document h of None \<Rightarrow> h | Some d \<Rightarrow> set_document (upd d) h)"

definition set_frame_range :: "pyarg \<Rightarrow> pyarg \<Rightarrow> host \<Rightarrow> unit outcome \<times> host" where
  "set_frame_range in_frame out_frame h =
     (case active_document h of
        None \<Rightarrow> (Returned (), h)
      | Some active_doc \<Rightarrow>
          (case py_int in_frame of
             Raised e \<Rightarrow> (Raised e, h)
           | Returned start \<Rightarrow>
               (case py_int out_frame of
                  Raised e \<Rightarrow> (Raised e, h)
                | Returned end' \<Rightarrow>
                    (let h1 = api (ModifyBegin ''Shotgun Update Frame Range'') h;
                         h2 = frame_set_value ''start_frame'' (start_frame_update (\<lambda>_. start)) start h1;
                         h3 = frame_set_value ''end_frame'' (end_frame_update (\<lambda>_. end')) end' h2;
                         h4 = frame_set_value ''range_start_frame''
                                (range_start_frame_update (\<lambda>_. start)) start h3;
                         h5 = frame_set_value ''range_end_frame''
                                (range_end_frame_update (\<lambda>_. end')) end' h4
                     in (Returned (), api ModifyEnd h5)))))"

section \<open>hooks/tk-multi-breakdown/tk-rumba\_scene\_operations.py\<close>

text \<open>
  The two recursive searches append to the list \<open>results\<close> they are handed and pass it
  on to the children, so a node comes before its descendants and siblings keep their
  order. \<open>results=None\<close> of the source is the empty list here.
\<close>

fun find_nodes_with_reference :: "node \<Rightarrow> node list \<Rightarrow> node list" where
  "find_nodes_with_reference (Node nm ty rf pl ch) results =
     fold find_nodes_with_reference ch
       (if rf \<noteq> [] then results @ [Node nm ty rf pl ch] else results)"

fun find_nodes_with_plug ::
  "node \<Rightarrow> string \<Rightarrow> string list option \<Rightarrow> node list \<Rightarrow> node list" where
  "find_nodes_with_plug (Node nm ty rf pl ch) plug_name type_names results =
     fold (\<lambda>child_node. find_nodes_with_plug child_node plug_name type_names) ch
       (if pl plug_name \<noteq> None
           \<and> (case type_names of None \<Rightarrow> True | Some ts \<Rightarrow> ts \<noteq> [] \<and> ty \<in> set ts)
        then results @ [Node nm ty rf pl ch] else results)"

text \<open>
  \<open>node.plug(name)\<close> on a node without that plug does not give a plug to read or
  write: the call fails.
\<close>

definition plug_as_string :: "node \<Rightarrow> string \<Rightarrow> string outcome" where
  "plug_as_string n plug_name =
     (case plugs n plug_name of
        None \<Rightarrow> Raised (RuntimeError (''no plug named '' @ plug_name))
      | Some v \<Rightarrow> Returned v)"

text \<open>The result is \<open>None\<close> for a node of any other type.\<close>

definition get_node_file_path :: "node \<Rightarrow> string option outcome" where
  "get_node_file_path n =
     (if type_name n \<in> set [''Asset''] then Returned (Some (reference_filename n))
      else if type_name n \<in> set [''UsdAsset''] then
        (case plug_as_string n ''file_path'' of
           Raised e \<Rightarrow> Raised e | Returned v \<Rightarrow> Returned (Some v))
      else if type_name n \<in> set [''Media''] then
        (case plug_as_string n ''file'' of
           Raised e \<Rightarrow> Raised e | Returned v \<Rightarrow> Returned (Some v))
      else Returned None)"

fun set_reference_filename :: "string \<Rightarrow> node \<Rightarrow> node" where
  "set_reference_filename p (Node nm ty rf pl ch) = Node nm ty p pl ch"

fun set_plug :: "string \<Rightarrow> string \<Rightarrow> node \<Rightarrow> node" where
  "set_plug k v (Node nm ty rf pl ch) = Node nm ty rf (pl(k \<mapsto> v)) ch"

fun set_children :: "node list \<Rightarrow> node \<Rightarrow> node" where
  "set_children ch' (Node nm ty rf pl ch) = Node nm ty rf pl ch'"

text \<open>
  \<open>active_document.child(name)\<close> resolves the name that \<open>full_document_name()\<close>
  reported for a node below the document; the search is in document order. For a name
  that no node below the document has there is no node to hand back: the call, or at the
  latest the \<open>type_name()\<close> asked of its result, raises. A node object is a handle
  into the tree, so a write through it lands on the node of that name.
\<close>

fun lookup_node :: "string \<Rightarrow> node \<Rightarrow> node option"
  and lookup_nodes :: "string \<Rightarrow> node list \<Rightarrow> node option" where
  "lookup_node name (Node nm ty rf pl ch) =
     (if nm = name then Some (Node nm ty rf pl ch) else lookup_nodes name ch)"
| "lookup_nodes name [] = None"
| "lookup_nodes name (n # ns) =
     (case lookup_node name n of Some r \<Rightarrow> Some r | None \<Rightarrow> lookup_nodes name ns)"

fun modify_node :: "string \<Rightarrow> (node \<Rightarrow> node) \<Rightarrow> node \<Rightarrow> node"
  and modify_nodes :: "string \<Rightarrow> (node \<Rightarrow> node) \<Rightarrow> node list \<Rightarrow> node list" where
  "modify_node name f (Node nm ty rf pl ch) =
     (if nm = name then f (Node nm ty rf pl ch)
      else Node nm ty rf pl (modify_nodes name f ch))"
| "modify_nodes name f [] = []"
| "modify_nodes name f (n # ns) =
     (if lookup_node name n \<noteq> None then modify_node name f n # ns
      else n # modify_nodes name f ns)"

definition child :: "document \<Rightarrow> string \<Rightarrow> node option" where
  "child d name = lookup_nodes name (children (root d))"

definition write_node :: "string \<Rightarrow> (node \<Rightarrow> node) \<Rightarrow> host \<Rightarrow> host" where
  "write_node name f h =
     (case active_document h of
        None \<Rightarrow> h
      | Some d \<Rightarrow>
          set_document
            (d\<lparr>root := set_children (modify_nodes name f (children (root d))) (root d)\<rparr>) h)"

text \<open>
  \<open>node.replace_reference(path)\<close> makes \<open>path\<close> the reference filename of the node;
  \<open>node.plug(name).set_value(path)\<close> stores \<open>path\<close> in the plug.
\<close>

definition replace_reference :: "node \<Rightarrow> string \<Rightarrow> host \<Rightarrow> host" where
  "replace_reference n path h =
     api (ReplaceReference (full_document_name n) path)
       (write_node (full_document_name n) (set_reference_filename path) h)"

definition plug_set_value :: "node \<Rightarrow> string \<Rightarrow> string \<Rightarrow> host \<Rightarrow> unit outcome \<times> host" where
  "plug_set_value n plug_name path h =
     (case plugs n plug_name of
        None \<Rightarrow> (Raised (RuntimeError (''no plug named '' @ plug_name)), h)
      | Some _ \<Rightarrow>
          (Returned (),
           api (PlugSetValue (full_document_name n) plug_name path)
             (write_node (full_document_name n) (set_plug plug_name path) h)))"

definition set_node_file_path :: "node \<Rightarrow> string \<Rightarrow> host \<Rightarrow> unit outcome \<times> host" where
  "set_node_file_path n path h =
     (if type_name n \<in> set [''Asset''] then (Returned (), replace_reference n path h)
      else if type_name n \<in> set [''UsdAsset''] then plug_set_value n ''file_path'' path h
      else if type_name n \<in> set [''Media''] then plug_set_value n ''file'' path h
      else (Returned (), h))"

definition ITEM_COLORS :: "string \<rightharpoonup> string" where
  "ITEM_COLORS = [''Asset'' \<mapsto> ''#e7a81d'', ''UsdAsset'' \<mapsto> ''#a8e71d'',
                  ''Media'' \<mapsto> ''#1da8e7'', ''default'' \<mapsto> ''#a81de7'']"

text \<open>
  \<open>BreakdownSceneItem\<close> is a \<open>str\<close> whose text is a piece of markup and which carries
  the attributes \<open>node\<close> and \<open>node_type\<close>.
\<close>

record breakdown_scene_item =
  item_text :: string
  item_node :: string
  item_node_type :: string

definition BreakdownSceneItem :: "node \<Rightarrow> string \<Rightarrow> breakdown_scene_item" where
  "BreakdownSceneItem n file_path =
     (let node_name = full_document_name n;
          node_type = type_name n;
          node_color = (case ITEM_COLORS node_type of
                          Some c \<Rightarrow> c | None \<Rightarrow> the (ITEM_COLORS ''default''))
      in \<lparr>item_text = ''<span style='' @ [CHR 0x27] @ ''color:'' @ node_color @ [CHR 0x27]
                        @ ''><b>'' @ node_name @ ''</b></span>''
                        @ ''<br/><nobr><b><sub>'' @ node_type @ ''</sub></b></nobr>'',
          item_node = node_name,
          item_node_type = node_type\<rparr>)"

text \<open>
  The values of a scan result are strings, one of them a \<open>BreakdownSceneItem\<close>; the
  result itself is a dictionary with string keys.
\<close>

datatype ref_value = Str string | SceneItem breakdown_scene_item

type_synonym scene_ref = "string \<rightharpoonup> ref_value"

fun str_of :: "ref_value \<Rightarrow> string" where
  "str_of (Str s) = s"
| "str_of (SceneItem it) = item_text it"

definition scene_ref :: "node \<Rightarrow> string \<Rightarrow> scene_ref" where
  "scene_ref n ref_path =
     [''node'' \<mapsto> SceneItem (BreakdownSceneItem n ref_path),
      ''type'' \<mapsto> Str ''file'',
      ''path'' \<mapsto> Str ref_path]"

text \<open>The loop \<open>for node in nodes\<close> of \<open>scan_scene\<close>.\<close>

fun scan_nodes :: "node list \<Rightarrow> scene_ref list \<Rightarrow> scene_ref list outcome" where
  "scan_nodes [] refs = Returned refs"
| "scan_nodes (n # ns) refs =
     (case get_node_file_path n of
        Raised e \<Rightarrow> Raised e
      | Returned ref_path \<Rightarrow>
          (case ref_path of
             None \<Rightarrow> scan_nodes ns refs
           | Some p \<Rightarrow>
               if p \<noteq> [] then scan_nodes ns (refs @ [scene_ref n p])
               else scan_nodes ns refs))"

definition scene_nodes :: "document \<Rightarrow> node list" where
  "scene_nodes doc =
     find_nodes_with_reference (root doc) []
     @ find_nodes_with_plug (root doc) ''file_path'' (Some [''UsdAsset'']) []
     @ find_nodes_with_plug (root doc) ''file'' (Some [''Media'']) []"

text \<open>
  Messages formatted from lists and dictionaries are logged without the formatted part.
\<close>

definition scan_scene :: "host \<Rightarrow> scene_ref list outcome \<times> host" where
  "scan_scene h =
     (case (case active_document h of
              None \<Rightarrow> Returned []
            | Some d \<Rightarrow> scan_nodes (scene_nodes d) []) of
        Raised e \<Rightarrow> (Raised e, h)
      | Returned refs \<Rightarrow> (Returned refs, emit (Debug ''refs: '') h))"

text \<open>One pass of the loop \<open>for i in items\<close> of \<open>update\<close>.\<close>

definition update_item :: "scene_ref \<Rightarrow> host \<Rightarrow> unit outcome \<times> host" where
  "update_item i h =
     (case i ''path'' of
        None \<Rightarrow> (Raised (KeyError ''path''), h)
      | Some new_path \<Rightarrow>
          (case i ''node'' of
             None \<Rightarrow> (Raised (KeyError ''node''), h)
           | Some (Str s) \<Rightarrow> (Raised (AttributeError ''node''), h)
           | Some (SceneItem it) \<Rightarrow>
               (let node_name = item_node it in
                case Option.bind (active_document h) (\<lambda>d. child d node_name) of
                  None \<Rightarrow> (Raised (RuntimeError (''no child named '' @ node_name)), h)
                | Some n \<Rightarrow>
                    set_node_file_path n (str_of new_path)
                      (emit (Debug (''Updating node: '' @ node_name @ '' to path ''
                                    @ str_of new_path)) h))))"

fun update_items :: "scene_ref list \<Rightarrow> host \<Rightarrow> unit outcome \<times> host" where
  "update_items [] h = (Returned (), h)"
| "update_items (i # items) h =
     (case update_item i h of
        (Raised e, h') \<Rightarrow> (Raised e, h')
      | (Returned _, h') \<Rightarrow> update_items items h')"

definition update :: "scene_ref list \<Rightarrow> host \<Rightarrow> unit outcome \<times> host" where
  "update items h0 =
     (let h = emit (Debug ''items: '') h0 in
      case active_document h of
        None \<Rightarrow> (Returned (), h)
      | Some _ \<Rightarrow>
          (case update_items items (api (ModifyBegin ''Shotgun Update References'') h) of
             (Raised e, h') \<Rightarrow> (Raised e, h')
           | (Returned _, h') \<Rightarrow> (Returned (), api ModifyEnd h')))"

section \<open>hooks/tk-multi-loader2/tk-rumba\_actions.py\<close>

text \<open>
  Library functions the hook calls. \<open>str.lower\<close> on the letters A to Z;
  \<open>str.rfind\<close> for a single character (\<open>-1\<close> when it does not occur);
  \<open>os.path.splitext\<close> and \<open>os.path.basename\<close> on a path whose separators are
  forward slashes, which is what \<open>execute_action\<close> hands them.
\<close>

definition lower_char :: "char \<Rightarrow> char" where
  "lower_char c =
     (if 65 \<le> (of_char c :: nat) \<and> (of_char c :: nat) \<le> 90
      then char_of ((of_char c :: nat) + 32) else c)"

definition lower :: "string \<Rightarrow> string" where
  "lower s = map lower_char s"

definition rfind :: "char \<Rightarrow> string \<Rightarrow> int" where
  "rfind c s =
     (if c \<in> set s
      then int (length s) - 1 - int (length (takeWhile (\<lambda>x. x \<noteq> c) (rev s)))
      else - 1)"

definition splitext :: "string \<Rightarrow> string \<times> string" where
  "splitext p =
     (let sepIndex = rfind (CHR ''/'') p;
          dotIndex = rfind (CHR ''.'') p
      in if dotIndex > sepIndex
            \<and> list_ex (\<lambda>c. c \<noteq> CHR ''.'')
                 (take (nat (dotIndex - (sepIndex + 1))) (drop (nat (sepIndex + 1)) p))
         then (take (nat dotIndex) p, drop (nat dotIndex) p)
         else (p, []))"

definition basename :: "string \<Rightarrow> string" where
  "basename p = rev (takeWhile (\<lambda>c. c \<noteq> CHR ''/'') (rev p))"

definition RUMBA_SUPPORTED_FORMATS :: "string list" where
  "RUMBA_SUPPORTED_FORMATS = [''.rumbanode'', ''.abc'', ''.usd'', ''.usda'', ''.usdc'']"

text \<open>
  The media formats are read from \<open>rumba_media\<close> when the module is loaded: the
  extension lists of its audio, image and video formats, one after the other.
\<close>

definition RUMBA_SUPPORTED_MEDIA_FORMATS :: "host \<Rightarrow> string list" where
  "RUMBA_SUPPORTED_MEDIA_FORMATS h = audio_formats h @ image_formats h @ video_formats h"

text \<open>
  The publish record of the toolkit, as far as the hook reads it: the path
  \<open>get_publish_path\<close> resolves and the optional \<open>code\<close> field.
\<close>

record sg_publish_data =
  publish_path :: string
  code :: "string option"

record single_action =
  action_name :: string
  action_sg_publish_data :: sg_publish_data
  action_params :: "string option"

definition is_a_supported_extension :: "string \<Rightarrow> sg_publish_data \<Rightarrow> bool" where
  "is_a_supported_extension path sg =
     (let ext = snd (splitext path) in lower ext \<in> set RUMBA_SUPPORTED_FORMATS)"

definition is_a_supported_media_extension :: "host \<Rightarrow> string \<Rightarrow> sg_publish_data \<Rightarrow> bool" where
  "is_a_supported_media_extension h path sg =
     (let ext = snd (splitext path) in lower ext \<in> set (RUMBA_SUPPORTED_MEDIA_FORMATS h))"

definition reference_into_current_document ::
  "string \<Rightarrow> sg_publish_data \<Rightarrow> host \<Rightarrow> unit outcome \<times> host" where
  "reference_into_current_document path sg h =
     (case active_document h of
        None \<Rightarrow> (Returned (), h)
      | Some _ \<Rightarrow>
          if path \<in> existing_paths h then
            (let h1 = emit (Debug (''Referencing path: '' @ path)) h;
                 h2 = api (ModifyBegin ''Shotgun Reference File'') h1;
                 h3 = api (Reference path []) h2
             in (Returned (), api ModifyEnd h3))
          else (Returned (), emit (Warning (''Referencing path not found!: '' @ path)) h))"

definition import_into_current_document ::
  "string \<Rightarrow> sg_publish_data \<Rightarrow> host \<Rightarrow> unit outcome \<times> host" where
  "import_into_current_document path sg h =
     (case active_document h of
        None \<Rightarrow> (Returned (), h)
      | Some _ \<Rightarrow>
          if path \<in> existing_paths h then
            (let h1 = emit (Debug (''Importing path: '' @ path)) h;
                 h2 = api (ModifyBegin ''Shotgun Import File'') h1;
                 h3 = api (LoadNode path []) h2
             in (Returned (), api ModifyEnd h3))
          else (Returned (), emit (Warning (''Path to import not found!: '' @ path)) h))"

definition import_media_into_new_media_layer ::
  "string \<Rightarrow> sg_publish_data \<Rightarrow> host \<Rightarrow> unit outcome \<times> host" where
  "import_media_into_new_media_layer path sg h =
     (case active_document h of
        None \<Rightarrow> (Returned (), h)
      | Some _ \<Rightarrow>
          if path \<in> existing_paths h then
            (let h1 = api (ModifyBegin ''Shotgun Import File'') h;
                 layer_name = (case code sg of Some c \<Rightarrow> c | None \<Rightarrow> basename path);
                 h2 = api (AddMediaLayer layer_name) h1;
                 frame = current_frame h2;
                 h3 = api (GetMedia path) h2;
                 h4 = api (AddMediaClip layer_name path frame) h3
             in (Returned (), api ModifyEnd h4))
          else (Returned (), emit (Warning (''Path to import not found!: '' @ path)) h))"

definition unsupported :: "string \<Rightarrow> error" where
  "unsupported path = Exception (''Unsupported file extension for '' @ [CHR 0x27] @ path
                                  @ [CHR 0x27] @ ''!'')"

definition resolve_path :: "host \<Rightarrow> sg_publish_data \<Rightarrow> string" where
  "resolve_path h sg = map (\<lambda>c. if c = path_sep h then CHR ''/'' else c) (publish_path sg)"

definition execute_action ::
  "string \<Rightarrow> string option \<Rightarrow> sg_publish_data \<Rightarrow> host \<Rightarrow> unit outcome \<times> host" where
  "execute_action name params sg h0 =
     (let h1 = emit (Debug (''Execute action called for action `'' @ name @ ''`. '')) h0;
          path = resolve_path h1 sg;
          h = emit (Debug (''Publish path: '' @ path)) h1
      in if name = ''reference'' then
           (if \<not> is_a_supported_extension path sg then (Raised (unsupported path), h)
            else reference_into_current_document path sg h)
         else if name = ''import'' then
           (if \<not> is_a_supported_extension path sg then (Raised (unsupported path), h)
            else import_into_current_document path sg h)
         else if name = ''import_media'' then
           (if \<not> is_a_supported_media_extension h path sg then (Raised (unsupported path), h)
            else import_media_into_new_media_layer path sg h)
         else (Returned (), h))"

fun execute_multiple_actions :: "single_action list \<Rightarrow> host \<Rightarrow> unit outcome \<times> host" where
  "execute_multiple_actions [] h = (Returned (), h)"
| "execute_multiple_actions (a # actions) h =
     (case execute_action (action_name a) (action_params a) (action_sg_publish_data a)
             (emit (Debug ''Single Action: '') h) of
        (Raised e, h') \<Rightarrow> (Raised e, h')
      | (Returned _, h') \<Rightarrow> execute_multiple_actions actions h')"

section \<open>hooks/tk-multi-publish2/basic/publish\_base.py\<close>

text \<open>
  What the publish hooks use of the toolkit: the apps of the engine (and whether an app
  has the attribute \<open>show_file_save_dlg\<close>), \<open>ShotgunPath.normalize\<close>,
  \<open>get_template_by_name\<close> and the hook's \<open>disk_location\<close>.
\<close>

record app =
  has_show_file_save_dlg :: bool

record toolkit =
  apps :: "string \<rightharpoonup> app"
  normalize :: "string \<Rightarrow> string"
  get_template_by_name :: "string option \<Rightarrow> string option"
  disk_location :: string

datatype property =
    PropStr string
  | PropTemplate "string option"
  | PropNodes "node list"
  | PropFields "string \<rightharpoonup> string"

record publish_item =
  item_type :: string
  type_display :: string
  display_name :: string
  icon_path :: "string option"
  properties :: "string \<rightharpoonup> property"

definition session_path :: "host \<Rightarrow> string option" where
  "session_path h =
     (let path = active_document_filename h in
      if path = ''untitled'' then None else Some path)"

definition get_save_as_action :: "toolkit \<Rightarrow> action_button" where
  "get_save_as_action tk =
     (let callback0 = SaveAs;
          callback1 =
            (case apps tk ''tk-multi-workfiles2'' of
               None \<Rightarrow> callback0
             | Some a \<Rightarrow> if has_show_file_save_dlg a then ShowFileSaveDlg else callback0)
      in \<lparr>label = ''Save As...'', tooltip = ''Save the current session'',
          callback = callback1\<rparr>)"

definition session_error_msg :: string where
  "session_error_msg =
     ''The Rumba session has not been saved. Please save your session before publishing.''"

text \<open>\<open>not session_path\<close> holds for \<open>None\<close> and for the empty string.\<close>

definition session_validate ::
  "toolkit \<Rightarrow> publish_item \<Rightarrow> host \<Rightarrow> (bool \<times> publish_item) outcome \<times> host" where
  "session_validate tk item h =
     (case session_path h of
        None \<Rightarrow>
          (Raised (Exception session_error_msg),
           emit (Error session_error_msg (Some (get_save_as_action tk))) h)
      | Some p \<Rightarrow>
          if p = [] then
            (Raised (Exception session_error_msg),
             emit (Error session_error_msg (Some (get_save_as_action tk))) h)
          else
            (Returned
               (True, item\<lparr>properties := (properties item)(''path'' \<mapsto> PropStr (normalize tk p))\<rparr>),
             h))"

section \<open>hooks/tk-multi-publish2/basic/collector.py\<close>

text \<open>
  \<open>re.compile(r"[\W_]+", re.UNICODE).sub("", s)\<close>: scanning from the left, every maximal
  run of characters of the class is replaced. \<open>\w\<close> matches the alphanumeric
  characters and the underscore; which characters are alphanumeric is a table of the
  \<open>re\<close> module and a parameter here.
\<close>

definition nonword_or_underscore :: "(char \<Rightarrow> bool) \<Rightarrow> char \<Rightarrow> bool" where
  "nonword_or_underscore alnum c = (\<not> (alnum c \<or> c = CHR ''_'') \<or> c = CHR ''_'')"

function re_sub_runs :: "(char \<Rightarrow> bool) \<Rightarrow> string \<Rightarrow> string \<Rightarrow> string" where
  "re_sub_runs cls repl [] = []"
| "re_sub_runs cls repl (c # cs) =
     (if cls c then repl @ re_sub_runs cls repl (dropWhile cls cs)
      else c # re_sub_runs cls repl cs)"
  by pat_completeness auto
termination
  by (relation "measure (\<lambda>(cls, repl, s). length s)")
     (auto simp: less_Suc_eq_le length_dropWhile_le)

definition alphanumeric_sub :: "(char \<Rightarrow> bool) \<Rightarrow> string \<Rightarrow> string" where
  "alphanumeric_sub alnum asset_name = re_sub_runs (nonword_or_underscore alnum) [] asset_name"

text \<open>\<open>posixpath.join\<close>.\<close>

definition path_join :: "string \<Rightarrow> string list \<Rightarrow> string" where
  "path_join a ps =
     fold (\<lambda>b path.
             if b \<noteq> [] \<and> hd b = CHR ''/'' then b
             else if path = [] \<or> last path = CHR ''/'' then path @ b
             else path @ ''/'' @ b) ps a"

type_synonym settings = "string \<rightharpoonup> string option"

text \<open>
  The three collectors run over the items of the dictionary that
  \<open>find_geometry_nodes_by_asset\<close> returns, in its order: asset name and geometry nodes.
  \<open>create_item\<close> of the parent gives the new item its type, type display and name.
\<close>

definition create_item :: "string \<Rightarrow> string \<Rightarrow> string \<Rightarrow> publish_item" where
  "create_item ty disp nm =
     \<lparr>item_type = ty, type_display = disp, display_name = nm, icon_path = None,
      properties = Map.empty\<rparr>"

definition set_property :: "string \<Rightarrow> property \<Rightarrow> publish_item \<Rightarrow> publish_item" where
  "set_property k v item = item\<lparr>properties := (properties item)(k \<mapsto> v)\<rparr>"

definition fbx_asset_item ::
  "(char \<Rightarrow> bool) \<Rightarrow> toolkit \<Rightarrow> settings \<Rightarrow> string \<times> node list \<Rightarrow> publish_item \<times> log_entry" where
  "fbx_asset_item alnum tk settings entry =
     (let asset_name = alphanumeric_sub alnum (fst entry);
          nodes = snd entry;
          display_name = asset_name @ '' FBX Animation'';
          item0 = create_item ''rumba.animation.fbx'' ''FBX File'' display_name;
          item1 = item0\<lparr>icon_path :=
                    Some (path_join (disk_location tk) [''..'', ''icons'', ''fbx.png''])\<rparr>;
          item2 = (case settings ''Work Template'' of
                     None \<Rightarrow> item1
                   | Some work_template_setting \<Rightarrow>
                       set_property ''publish_type'' (PropStr ''FBX File'')
                         (set_property ''work_template''
                            (PropTemplate (get_template_by_name tk work_template_setting)) item1));
          item3 = set_property ''nodes'' (PropNodes nodes) item2;
          item4 = set_property ''extra_fields'' (PropFields [''name'' \<mapsto> asset_name]) item3
      in (item4, Info (''Asset '' @ [CHR 0x27] @ asset_name @ [CHR 0x27]
                       @ '' collected for FBX publishings'')))"

definition usd_asset_item ::
  "(char \<Rightarrow> bool) \<Rightarrow> toolkit \<Rightarrow> settings \<Rightarrow> string \<times> node list \<Rightarrow> publish_item \<times> log_entry" where
  "usd_asset_item alnum tk settings entry =
     (let asset_name = alphanumeric_sub alnum (fst entry);
          nodes = snd entry;
          display_name = asset_name @ '' USD File'';
          item0 = create_item ''rumba.animation.usd'' ''USD File'' display_name;
          item1 = item0\<lparr>icon_path :=
                    Some (path_join (disk_location tk) [''..'', ''icons'', ''usd.png''])\<rparr>;
          item2 = (case settings ''Work Template'' of
                     None \<Rightarrow> item1
                   | Some work_template_setting \<Rightarrow>
                       set_property ''publish_type'' (PropStr ''USD File'')
                         (set_property ''work_template''
                            (PropTemplate (get_template_by_name tk work_template_setting)) item1));
          item3 = set_property ''nodes'' (PropNodes nodes) item2;
          item4 = set_property ''extra_fields'' (PropFields [''name'' \<mapsto> asset_name]) item3
      in (item4, Info (''Asset '' @ [CHR 0x27] @ asset_name @ [CHR 0x27]
                       @ '' collected for USD publishings'')))"

definition abc_asset_item ::
  "(char \<Rightarrow> bool) \<Rightarrow> toolkit \<Rightarrow> settings \<Rightarrow> string \<times> node list \<Rightarrow> publish_item \<times> log_entry" where
  "abc_asset_item alnum tk settings entry =
     (let asset_name = alphanumeric_sub alnum (fst entry);
          nodes = snd entry;
          display_name = asset_name @ '' Alembic Cache'';
          item0 = create_item ''rumba.animation.alembic_cache'' ''Alembic Cache'' display_name;
          item1 = item0\<lparr>icon_path :=
                    Some (path_join (disk_location tk) [''..'', ''icons'', ''alembic.png''])\<rparr>;
          item2 = (case settings ''Work Template'' of
                     None \<Rightarrow> item1
                   | Some work_template_setting \<Rightarrow>
                       set_property ''publish_type'' (PropStr ''Alembic Cache'')
                         (set_property ''work_template''
                            (PropTemplate (get_template_by_name tk work_template_setting)) item1));
          item3 = set_property ''nodes'' (PropNodes nodes) item2;
          item4 = set_property ''extra_fields'' (PropFields [''name'' \<mapsto> asset_name]) item3
      in (item4, Info (''Asset '' @ [CHR 0x27] @ asset_name @ [CHR 0x27]
                       @ '' collected for Alembic Cache publishings'')))"

text \<open>
  The loop \<open>for asset_name, nodes in by_asset_node.items()\<close>: the item is appended to
  \<open>items\<close> and the line is logged.
\<close>

fun collect_assets ::
  "(string \<times> node list \<Rightarrow> publish_item \<times> log_entry) \<Rightarrow> (string \<times> node list) list
     \<Rightarrow> publish_item list \<Rightarrow> host \<Rightarrow> publish_item list \<times> host" where
  "collect_assets body [] items h = (items, h)"
| "collect_assets body (entry # rest) items h =
     (case body entry of (item, line) \<Rightarrow> collect_assets body rest (items @ [item]) (emit line h))"

text \<open>A collector returns \<open>None\<close> when there is no session path.\<close>

definition collect_rumba_fbx_assets ::
  "(char \<Rightarrow> bool) \<Rightarrow> toolkit \<Rightarrow> settings \<Rightarrow> (string \<times> node list) list \<Rightarrow> host
     \<Rightarrow> publish_item list option \<times> host" where
  "collect_rumba_fbx_assets alnum tk settings by_asset_node h =
     (case session_path h of
        None \<Rightarrow> (None, h)
      | Some path \<Rightarrow>
          if path = [] then (None, h)
          else (case collect_assets (fbx_asset_item alnum tk settings) by_asset_node [] h of
                  (items, h') \<Rightarrow> (Some items, h')))"

definition collect_rumba_usd_assets ::
  "(char \<Rightarrow> bool) \<Rightarrow> toolkit \<Rightarrow> settings \<Rightarrow> (string \<times> node list) list \<Rightarrow> host
     \<Rightarrow> publish_item list option \<times> host" where
  "collect_rumba_usd_assets alnum tk settings by_asset_node h =
     (case session_path h of
        None \<Rightarrow> (None, h)
      | Some path \<Rightarrow>
          if path = [] then (None, h)
          else (case collect_assets (usd_asset_item alnum tk settings) by_asset_node [] h of
                  (items, h') \<Rightarrow> (Some items, h')))"

definition collect_rumba_abc_assets ::
  "(char \<Rightarrow> bool) \<Rightarrow> toolkit \<Rightarrow> settings \<Rightarrow> (string \<times> node list) list \<Rightarrow> host
     \<Rightarrow> publish_item list option \<times> host" where
  "collect_rumba_abc_assets alnum tk settings by_asset_node h =
     (case session_path h of
        None \<Rightarrow> (None, h)
      | Some path \<Rightarrow>
          if path = [] then (None, h)
          else (case collect_assets (abc_asset_item alnum tk settings) by_asset_node [] h of
                  (items, h') \<Rightarrow> (Some items, h')))"

section \<open>Notions used in the statements\<close>

text \<open>The nodes of a tree in document order, the root first.\<close>

fun all_nodes :: "node \<Rightarrow> node list" where
  "all_nodes (Node nm ty rf pl ch) = Node nm ty rf pl ch # concat (map all_nodes ch)"

text \<open>
  The non-empty path \<open>get_node_file_path\<close> yields on a node, if it yields one, and the
  entries a node of the scanned list stands for.
\<close>

definition file_path_of :: "node \<Rightarrow> string option" where
  "file_path_of n =
     (case get_node_file_path n of
        Returned (Some p) \<Rightarrow> if p \<noteq> [] then Some p else None
      | _ \<Rightarrow> None)"

definition ref_entries :: "node \<Rightarrow> scene_ref list" where
  "ref_entries n = (case file_path_of n of Some p \<Rightarrow> [scene_ref n p] | None \<Rightarrow> [])"

text \<open>The test \<open>find_nodes_with_plug\<close> applies to a node.\<close>

definition plug_match :: "string \<Rightarrow> string list option \<Rightarrow> node \<Rightarrow> bool" where
  "plug_match plug_name type_names m =
     (plugs m plug_name \<noteq> None
      \<and> (case type_names of None \<Rightarrow> True | Some ts \<Rightarrow> ts \<noteq> [] \<and> type_name m \<in> set ts))"

text \<open>
  Undo brackets in a sequence of calls. \<open>bracketed k cs\<close>: with \<open>k\<close> brackets open at
  the start, every call of \<open>cs\<close> that changes the document is made while a bracket is
  open, and no bracket is closed that was not opened. \<open>open_after k cs\<close> is the number
  of brackets open at the end.
\<close>

fun bracketed :: "nat \<Rightarrow> api_call list \<Rightarrow> bool" where
  "bracketed k [] = True"
| "bracketed k (ModifyBegin _ # cs) = bracketed (Suc k) cs"
| "bracketed k (ModifyEnd # cs) = (0 < k \<and> bracketed (k - 1) cs)"
| "bracketed k (_ # cs) = (0 < k \<and> bracketed k cs)"

fun open_after :: "nat \<Rightarrow> api_call list \<Rightarrow> nat" where
  "open_after k [] = k"
| "open_after k (ModifyBegin _ # cs) = open_after (Suc k) cs"
| "open_after k (ModifyEnd # cs) = open_after (k - 1) cs"
| "open_after k (_ # cs) = open_after k cs"

definition calls_made :: "host \<Rightarrow> host \<Rightarrow> api_call list" where
  "calls_made h h' = drop (length (calls h)) (calls h')"

text \<open>
  The calls that change the document are all calls but the two that open and close a
  bracket. \<open>within_brackets h r\<close>: the hook that started in state \<open>h\<close> and ended
  with \<open>r\<close> has only added calls, every change among them was made while a bracket
  was open, and if the hook returned every bracket it opened is closed.
\<close>

fun is_mutation :: "api_call \<Rightarrow> bool" where
  "is_mutation (ModifyBegin _) = False"
| "is_mutation ModifyEnd = False"
| "is_mutation _ = True"

definition within_brackets :: "host \<Rightarrow> unit outcome \<times> host \<Rightarrow> bool" where
  "within_brackets h r =
     (calls (snd r) = calls h @ calls_made h (snd r)
      \<and> bracketed 0 (calls_made h (snd r))
      \<and> (fst r = Returned () \<longrightarrow> open_after 0 (calls_made h (snd r)) = 0))"

definition extra_fields_name :: "publish_item \<Rightarrow> string option" where
  "extra_fields_name item =
     (case properties item ''extra_fields'' of
        Some (PropFields flds) \<Rightarrow> flds ''name''
      | _ \<Rightarrow> None)"

text \<open>The characters a to z, A to Z and 0 to 9.\<close>

definition ascii_alnum :: "char \<Rightarrow> bool" where
  "ascii_alnum c =
     (let k = (of_char c :: nat)
      in (48 \<le> k \<and> k \<le> 57) \<or> (65 \<le> k \<and> k \<le> 90) \<or> (97 \<le> k \<and> k \<le> 122))"

text \<open>
  The names the items of a collector's result carry in their \<open>extra_fields\<close>.
\<close>

definition stored_names :: "publish_item list option \<times> host \<Rightarrow> string option list option" where
  "stored_names r = map_option (map extra_fields_name) (fst r)"

subsection \<open>Example scenes\<close>

definition asset_node :: node where
  "asset_node = Node ''hero'' ''Asset'' ''/show/hero_v001.rumbanode'' Map.empty
                  [Node ''hero/geo'' ''Geometry'' [] Map.empty []]"

definition usd_node :: node where
  "usd_node = Node ''set'' ''UsdAsset'' [] [''file_path'' \<mapsto> ''/show/set_v003.usd''] []"

definition media_node :: node where
  "media_node = Node ''plate'' ''Media'' [] [''file'' \<mapsto> ''/show/plate.mov''] []"

definition empty_media_node :: node where
  "empty_media_node = Node ''slate'' ''Media'' [] [''file'' \<mapsto> []] []"

text \<open>A \<open>UsdAsset\<close> node that was itself brought in as a reference.\<close>

definition referenced_usd_node :: node where
  "referenced_usd_node =
     Node ''prop'' ''UsdAsset'' ''/show/prop_v002.rumbanode''
       [''file_path'' \<mapsto> ''/show/prop_v007.usd''] []"

definition document_of :: "node list \<Rightarrow> document" where
  "document_of ns =
     \<lparr>root = Node [] ''Document'' [] Map.empty ns,
      start_frame = 1, end_frame = 100, range_start_frame = 1, range_end_frame = 100\<rparr>"

definition host_of :: "document option \<Rightarrow> string \<Rightarrow> host" where
  "host_of d filename =
     \<lparr>active_document = d, active_document_filename = filename,
      current_frame = 1, existing_paths = {''/show/hero_v001.rumbanode'', ''/show/plate.mov''},
      audio_formats = [''.wav''], image_formats = [''.png''], video_formats = [''.mov''],
      path_sep = CHR ''/'', calls = [], logged = []\<rparr>"

definition demo_toolkit :: toolkit where
  "demo_toolkit =
     \<lparr>apps = [''tk-multi-workfiles2'' \<mapsto> \<lparr>has_show_file_save_dlg = True\<rparr>],
      normalize = (\<lambda>p. p), get_template_by_name = (\<lambda>n. n), disk_location = ''/hooks''\<rparr>"

text \<open>
  For the statement about \<open>execute_action\<close>: the extension test an action name
  calls for, the operation it leads to, and the state at the point of the test (the two
  debug lines are out).
\<close>

definition action_supported :: "string \<Rightarrow> host \<Rightarrow> string \<Rightarrow> sg_publish_data \<Rightarrow> bool" where
  "action_supported name h path sg =
     (if name = ''import_media'' then is_a_supported_media_extension h path sg
      else is_a_supported_extension path sg)"

definition action_operation ::
  "string \<Rightarrow> string \<Rightarrow> sg_publish_data \<Rightarrow> host \<Rightarrow> unit outcome \<times> host" where
  "action_operation name =
     (if name = ''reference'' then reference_into_current_document
      else if name = ''import'' then import_into_current_document
      else import_media_into_new_media_layer)"

definition entered :: "string \<Rightarrow> sg_publish_data \<Rightarrow> host \<Rightarrow> host" where
  "entered name sg h =
     emit (Debug (''Publish path: '' @ resolve_path h sg))
       (emit (Debug (''Execute action called for action `'' @ name @ ''`. '')) h)"

text \<open>One pass of the loop of \<open>execute_multiple_actions\<close>.\<close>

definition dispatch :: "single_action \<Rightarrow> host \<Rightarrow> unit outcome \<times> host" where
  "dispatch a h =
     execute_action (action_name a) (action_params a) (action_sg_publish_data a)
       (emit (Debug ''Single Action: '') h)"

text \<open>
  Dispatching a list in order whatever the outcomes, and whether every dispatch returns.
\<close>

fun run_all :: "single_action list \<Rightarrow> host \<Rightarrow> host" where
  "run_all [] h = h"
| "run_all (a # actions) h = run_all actions (snd (dispatch a h))"

fun all_return :: "single_action list \<Rightarrow> host \<Rightarrow> bool" where
  "all_return [] h = True"
| "all_return (a # actions) h =
     (fst (dispatch a h) = Returned () \<and> all_return actions (snd (dispatch a h)))"

subsection \<open>Example publishes\<close>

definition fbx_publish :: sg_publish_data where
  "fbx_publish = \<lparr>publish_path = ''/show/hero.v1/anim.FBX'', code = None\<rparr>"

definition hero_publish :: sg_publish_data where
  "hero_publish = \<lparr>publish_path = ''/show/hero_v001.rumbanode'', code = Some ''hero''\<rparr>"

definition unsaved_host :: host where
  "unsaved_host = host_of (Some (document_of [])) []"

definition bare_item :: publish_item where
  "bare_item = create_item ''rumba.session'' ''Rumba Document'' ''shot010.rumba''"

definition hero_action :: single_action where
  "hero_action = \<lparr>action_name = ''reference'', action_sg_publish_data = hero_publish,
                   action_params = None\<rparr>"

definition fbx_action :: single_action where
  "fbx_action = \<lparr>action_name = ''import'', action_sg_publish_data = fbx_publish,
                  action_params = None\<rparr>"

text \<open>
  An item as the hook's documentation describes it, with the name of the node as a plain
  string.
\<close>

definition plain_item :: scene_ref where
  "plain_item = [''node'' \<mapsto> Str ''set'', ''type'' \<mapsto> Str ''file'',
                 ''path'' \<mapsto> Str ''/show/set_v004.usd'']"

text \<open>Two nodes that report the same full document name.\<close>

definition hero_v1 :: node where
  "hero_v1 = Node ''hero'' ''Asset'' ''/show/hero_v001.rumbanode'' Map.empty []"

definition hero_v2 :: node where
  "hero_v2 = Node ''hero'' ''Asset'' ''/show/hero_v002.rumbanode'' Map.empty []"

definition demo_assets :: "(string \<times> node list) list" where
  "demo_assets = [(''hero_01 (left)'', [Node ''hero/geo'' ''Geometry'' [] Map.empty []]),
                  (''__set-A'', [])]"

definition demo_document :: document where
  "demo_document = document_of [asset_node, referenced_usd_node, empty_media_node]"

section \<open>Frame range\<close>

lemma active_document_api [simp]: "active_document (api c h) = active_document h"
  by (simp add: api_def)

lemma active_document_emit [simp]: "active_document (emit e h) = active_document h"
  by (simp add: emit_def)

lemma active_document_set_document [simp]: "active_document (set_document d h) = Some d"
  by (simp add: set_document_def)

lemma active_document_frame_set_value:
  "active_document h = Some d \<Longrightarrow> active_document (frame_set_value p upd v h) = Some (upd d)"
  by (simp add: frame_set_value_def)

text \<open>
  C4. With an active document and integer arguments \<open>a\<close> and \<open>b\<close>,
  \<open>set_frame_range(a, b)\<close> returns normally and \<open>get_frame_range()\<close> on the state it
  leaves returns \<open>(a, b)\<close>.
\<close>

theorem set_get_frame_range_roundtrip:
  assumes "active_document h \<noteq> None"
  shows "\<exists>h'. set_frame_range (PyInt a) (PyInt b) h = (Returned (), h')
              \<and> get_frame_range h' = (a, b)"
proof -
  from assms obtain d where d: "active_document h = Some d" by auto
  show ?thesis
    using d
    by (simp add: set_frame_range_def py_int_def get_frame_range_def Let_def
        active_document_frame_set_value)
qed

theorem set_get_frame_range_roundtrip_witness:
  "active_document (host_of (Some (document_of [])) ''untitled'') \<noteq> None
   \<and> (\<exists>h'. set_frame_range (PyInt 1001) (PyInt (- 5)) (host_of (Some (document_of [])) ''untitled'')
               = (Returned (), h')
            \<and> get_frame_range h' = (1001, - 5))"
  using set_get_frame_range_roundtrip [of "host_of (Some (document_of [])) ''untitled''" 1001 "- 5"]
  by (simp add: host_of_def)

text \<open>
  C9. Without an active document \<open>get_frame_range\<close> returns \<open>(0, 0)\<close>, and
  \<open>set_frame_range\<close> returns with the state as it was, whatever its two arguments are
  (also \<open>None\<close>): no call is made into the application and no frame plug is written.
\<close>

theorem frame_range_without_document:
  assumes "active_document h = None"
  shows "get_frame_range h = (0, 0) \<and> set_frame_range in_frame out_frame h = (Returned (), h)"
  using assms by (simp add: get_frame_range_def set_frame_range_def)

theorem frame_range_without_document_witness:
  "active_document (host_of None ''untitled'') = None
   \<and> get_frame_range (host_of None ''untitled'') = (0, 0)
   \<and> set_frame_range PyNone (PyInt 7) (host_of None ''untitled'')
       = (Returned (), host_of None ''untitled'')"
  using frame_range_without_document [of "host_of None ''untitled''" PyNone "PyInt 7"]
  by (simp add: host_of_def)

section \<open>Scanning the scene\<close>

lemma fold_append_acc:
  assumes "\<And>x acc. x \<in> set xs \<Longrightarrow> f x acc = acc @ g x"
  shows "fold f xs acc = acc @ concat (map g xs)"
  using assms by (induction xs arbitrary: acc) auto

lemma find_nodes_with_reference_filter:
  "find_nodes_with_reference n acc = acc @ filter (\<lambda>m. reference_filename m \<noteq> []) (all_nodes n)"
proof (induction n acc rule: find_nodes_with_reference.induct)
  case (1 nm ty rf pl ch results)
  let ?acc = "if rf \<noteq> [] then results @ [Node nm ty rf pl ch] else results"
  have "fold find_nodes_with_reference ch ?acc
        = ?acc @ concat (map (\<lambda>c. filter (\<lambda>m. reference_filename m \<noteq> []) (all_nodes c)) ch)"
    by (rule fold_append_acc) (simp add: "1.IH")
  then show ?case
    by (simp add: filter_concat comp_def)
qed

lemma plug_match_Node:
  "plug_match p ts (Node nm ty rf pl ch)
     = (pl p \<noteq> None \<and> (case ts of None \<Rightarrow> True | Some ts \<Rightarrow> ts \<noteq> [] \<and> ty \<in> set ts))"
  by (simp add: plug_match_def split: option.splits)

lemma find_nodes_with_plug_filter:
  "find_nodes_with_plug n p ts acc = acc @ filter (plug_match p ts) (all_nodes n)"
proof (induction n p ts acc rule: find_nodes_with_plug.induct)
  case (1 nm ty rf pl ch plug_name type_names results)
  let ?acc = "if pl plug_name \<noteq> None
           \<and> (case type_names of None \<Rightarrow> True | Some ts \<Rightarrow> ts \<noteq> [] \<and> ty \<in> set ts)
        then results @ [Node nm ty rf pl ch] else results"
  have "fold (\<lambda>c. find_nodes_with_plug c plug_name type_names) ch ?acc
        = ?acc @ concat (map (\<lambda>c. filter (plug_match plug_name type_names) (all_nodes c)) ch)"
    by (rule fold_append_acc) (simp add: "1.IH")
  then show ?case
    by (simp add: filter_concat comp_def plug_match_Node)
qed

lemma scene_nodes_filter:
  "scene_nodes d =
     filter (\<lambda>m. reference_filename m \<noteq> []) (all_nodes (root d))
     @ filter (plug_match ''file_path'' (Some [''UsdAsset''])) (all_nodes (root d))
     @ filter (plug_match ''file'' (Some [''Media''])) (all_nodes (root d))"
  using find_nodes_with_reference_filter [of "root d" "[]"]
    find_nodes_with_plug_filter [of "root d" _ _ "[]"]
  by (simp add: scene_nodes_def)

lemma scan_nodes_entries:
  assumes "\<forall>n \<in> set ns. \<exists>r. get_node_file_path n = Returned r"
  shows "scan_nodes ns acc = Returned (acc @ concat (map ref_entries ns))"
  using assms
proof (induction ns arbitrary: acc)
  case Nil
  then show ?case by simp
next
  case (Cons n ns)
  then obtain r where r: "get_node_file_path n = Returned r" by auto
  show ?case
    using Cons r
    by (cases r) (simp_all add: ref_entries_def file_path_of_def)
qed

lemma ref_entries_cases:
  "get_node_file_path n = Returned None \<Longrightarrow> ref_entries n = []"
  "get_node_file_path n = Returned (Some []) \<Longrightarrow> ref_entries n = []"
  "get_node_file_path n = Returned (Some p) \<Longrightarrow> p \<noteq> [] \<Longrightarrow> ref_entries n = [scene_ref n p]"
  by (simp_all add: ref_entries_def file_path_of_def)

lemma scan_nodes_Returned:
  "scan_nodes ns acc = Returned refs \<Longrightarrow> refs = acc @ concat (map ref_entries ns)"
proof (induction ns arbitrary: acc)
  case Nil
  then show ?case by simp
next
  case (Cons n ns)
  show ?case
  proof (cases "get_node_file_path n")
    case (Raised e)
    with Cons.prems show ?thesis by simp
  next
    case (Returned r)
    show ?thesis
    proof (cases r)
      case None
      with Returned Cons show ?thesis by (simp add: ref_entries_cases)
    next
      case (Some p)
      show ?thesis
      proof (cases "p = []")
        case True
        with Some Returned Cons show ?thesis by (simp add: ref_entries_cases)
      next
        case False
        with Some Returned Cons.prems
        have "scan_nodes ns (acc @ [scene_ref n p]) = Returned refs" by simp
        from Cons.IH [OF this] False Some Returned show ?thesis
          by (simp add: ref_entries_cases)
      qed
    qed
  qed
qed

lemma file_path_of_scanned:
  assumes "n \<in> set (all_nodes (root d))" "file_path_of n = Some p"
  shows "n \<in> set (scene_nodes d)"
  using assms
  by (auto simp: scene_nodes_filter file_path_of_def get_node_file_path_def plug_as_string_def
      plug_match_def split: if_splits option.splits outcome.splits)

lemma scene_nodes_subset: "set (scene_nodes d) \<subseteq> set (all_nodes (root d))"
  by (auto simp: scene_nodes_filter)

lemma scan_scene_Returned:
  assumes "scan_scene h = (Returned refs, h')"
  shows "h' = emit (Debug ''refs: '') h
       \<and> refs = (case active_document h of None \<Rightarrow> []
                  | Some d \<Rightarrow> concat (map ref_entries (scene_nodes d)))"
  using assms
  by (auto simp: scan_scene_def split: option.splits outcome.splits dest: scan_nodes_Returned)

lemma in_ref_entries:
  "r \<in> set (ref_entries n) \<longleftrightarrow> (\<exists>p. file_path_of n = Some p \<and> r = scene_ref n p)"
  by (cases "file_path_of n") (auto simp: ref_entries_def)

lemma file_path_of_Some:
  "file_path_of n = Some p \<longleftrightarrow> get_node_file_path n = Returned (Some p) \<and> p \<noteq> []"
  by (auto simp: file_path_of_def split: outcome.splits option.splits)

lemma scanned_ref:
  assumes "scan_scene h = (Returned refs, h')" "r \<in> set refs"
  shows "\<exists>d n p. active_document h = Some d \<and> n \<in> set (scene_nodes d)
           \<and> get_node_file_path n = Returned (Some p) \<and> p \<noteq> [] \<and> r = scene_ref n p"
proof -
  from scan_scene_Returned [OF assms(1)] assms(2)
  obtain d where d: "active_document h = Some d"
    and r: "r \<in> set (concat (map ref_entries (scene_nodes d)))"
    by (cases "active_document h") auto
  from r obtain n where "n \<in> set (scene_nodes d)" "r \<in> set (ref_entries n)" by auto
  with d show ?thesis
    by (auto simp: in_ref_entries file_path_of_Some)
qed

lemma dom_scene_ref: "dom (scene_ref n p) = {''node'', ''type'', ''path''}"
  by (auto simp: scene_ref_def)

lemma plug_match_single:
  "plug_match p (Some [t]) n \<longleftrightarrow> type_name n = t \<and> plugs n p \<noteq> None"
  by (auto simp: plug_match_def)

lemma scene_nodes_tree:
  "scene_nodes d =
     filter (\<lambda>n. reference_filename n \<noteq> []) (all_nodes (root d))
     @ filter (\<lambda>n. type_name n = ''UsdAsset'' \<and> plugs n ''file_path'' \<noteq> None) (all_nodes (root d))
     @ filter (\<lambda>n. type_name n = ''Media'' \<and> plugs n ''file'' \<noteq> None) (all_nodes (root d))"
  by (simp add: scene_nodes_filter plug_match_single cong: filter_cong)

lemma get_node_file_path_returns:
  assumes "(type_name n = ''UsdAsset'' \<longrightarrow> plugs n ''file_path'' \<noteq> None)
         \<and> (type_name n = ''Media'' \<longrightarrow> plugs n ''file'' \<noteq> None)"
  shows "\<exists>r. get_node_file_path n = Returned r"
  using assms by (auto simp: get_node_file_path_def plug_as_string_def)

lemma count_list_concat_ge:
  "n \<in> set xs \<Longrightarrow> y \<in> set (f n) \<Longrightarrow> 1 \<le> count_list (concat (map f xs)) y"
proof (induction xs)
  case Nil
  then show ?case by simp
next
  case (Cons x xs)
  show ?case
  proof (cases "n = x")
    case True
    with Cons.prems(2) have "count_list (f x) y \<noteq> 0"
      by (simp add: count_list_0_iff)
    then show ?thesis by simp
  next
    case False
    with Cons show ?thesis by simp
  qed
qed

lemma file_path_of_kind:
  assumes "file_path_of n = Some p"
  shows "(type_name n = ''Asset'' \<and> reference_filename n \<noteq> [])
       \<or> (type_name n = ''UsdAsset'' \<and> plugs n ''file_path'' \<noteq> None)
       \<or> (type_name n = ''Media'' \<and> plugs n ''file'' \<noteq> None)"
  using assms
  by (auto simp: file_path_of_def get_node_file_path_def plug_as_string_def
      split: if_splits option.splits outcome.splits)

text \<open>
  C1 (as amended). Take an active document in which a node with a reference filename
  that is of type \<open>UsdAsset\<close> or \<open>Media\<close> has the plug of its type. The list
  \<open>scan_scene\<close> returns is made by going, in document order, through the nodes with a
  reference filename, then through the \<open>UsdAsset\<close> nodes with a plug
  \<open>file_path\<close>, then through the \<open>Media\<close> nodes with a plug \<open>file\<close>, and
  putting down for each of them one entry with its path when \<open>get_node_file_path\<close>
  yields a non-empty path on it, and nothing otherwise. Every entry comes from a node of
  the tree with a non-empty path; every such node has an entry, and it has two of them
  when it has a reference filename and is not an \<open>Asset\<close> node.
\<close>

theorem scan_scene_entries:
  assumes "active_document h = Some d"
    and "\<forall>n \<in> set (all_nodes (root d)). reference_filename n \<noteq> [] \<longrightarrow>
           (type_name n = ''UsdAsset'' \<longrightarrow> plugs n ''file_path'' \<noteq> None)
         \<and> (type_name n = ''Media'' \<longrightarrow> plugs n ''file'' \<noteq> None)"
  shows "\<exists>refs. fst (scan_scene h) = Returned refs
     \<and> refs = concat (map ref_entries
         (filter (\<lambda>n. reference_filename n \<noteq> []) (all_nodes (root d))
          @ filter (\<lambda>n. type_name n = ''UsdAsset'' \<and> plugs n ''file_path'' \<noteq> None)
              (all_nodes (root d))
          @ filter (\<lambda>n. type_name n = ''Media'' \<and> plugs n ''file'' \<noteq> None)
              (all_nodes (root d))))
     \<and> (\<forall>r \<in> set refs. \<exists>n \<in> set (all_nodes (root d)). \<exists>p.
           file_path_of n = Some p \<and> r = scene_ref n p)
     \<and> (\<forall>n \<in> set (all_nodes (root d)). \<forall>p. file_path_of n = Some p \<longrightarrow>
           (if reference_filename n \<noteq> [] \<and> type_name n \<noteq> ''Asset'' then 2 else 1)
             \<le> count_list refs (scene_ref n p))"
proof -
  let ?all = "all_nodes (root d)"
  let ?A = "filter (\<lambda>n. reference_filename n \<noteq> []) ?all"
  let ?U = "filter (\<lambda>n. type_name n = ''UsdAsset'' \<and> plugs n ''file_path'' \<noteq> None) ?all"
  let ?M = "filter (\<lambda>n. type_name n = ''Media'' \<and> plugs n ''file'' \<noteq> None) ?all"
  let ?refs = "concat (map ref_entries (?A @ ?U @ ?M))"
  have ret: "\<forall>n \<in> set (scene_nodes d). \<exists>r. get_node_file_path n = Returned r"
  proof
    fix n assume "n \<in> set (scene_nodes d)"
    then have "n \<in> set ?A \<or> n \<in> set ?U \<or> n \<in> set ?M"
      by (simp add: scene_nodes_tree)
    then show "\<exists>r. get_node_file_path n = Returned r"
      using assms(2)
      by (intro get_node_file_path_returns) auto
  qed
  have 1: "fst (scan_scene h) = Returned ?refs"
    using assms(1) ret by (simp add: scan_scene_def scan_nodes_entries scene_nodes_tree)
  have 2: "\<exists>n \<in> set ?all. \<exists>p. file_path_of n = Some p \<and> r = scene_ref n p"
    if "r \<in> set ?refs" for r
  proof -
    from that obtain n where "n \<in> set (?A @ ?U @ ?M)" "r \<in> set (ref_entries n)"
      by auto
    then show ?thesis
      by (auto simp: in_ref_entries)
  qed
  have 3: "(if reference_filename n \<noteq> [] \<and> type_name n \<noteq> ''Asset'' then 2 else 1)
             \<le> count_list ?refs (scene_ref n p)"
    if n: "n \<in> set ?all" and p: "file_path_of n = Some p" for n p
  proof -
    have e: "scene_ref n p \<in> set (ref_entries n)"
      using p by (simp add: in_ref_entries)
    have c: "count_list ?refs (scene_ref n p)
               = count_list (concat (map ref_entries ?A)) (scene_ref n p)
               + count_list (concat (map ref_entries ?U)) (scene_ref n p)
               + count_list (concat (map ref_entries ?M)) (scene_ref n p)"
      by simp
    have a: "1 \<le> count_list (concat (map ref_entries ?A)) (scene_ref n p)"
      if "reference_filename n \<noteq> []"
      using that n e by (intro count_list_concat_ge [of n]) simp_all
    have um: "1 \<le> count_list (concat (map ref_entries ?U)) (scene_ref n p)
                  + count_list (concat (map ref_entries ?M)) (scene_ref n p)"
      if "type_name n \<noteq> ''Asset''"
    proof -
      from file_path_of_kind [OF p] that
      consider "type_name n = ''UsdAsset'' \<and> plugs n ''file_path'' \<noteq> None"
        | "type_name n = ''Media'' \<and> plugs n ''file'' \<noteq> None"
        by blast
      then show ?thesis
      proof cases
        case 1
        with n e have "1 \<le> count_list (concat (map ref_entries ?U)) (scene_ref n p)"
          by (intro count_list_concat_ge [of n]) simp_all
        then show ?thesis by simp
      next
        case 2
        with n e have "1 \<le> count_list (concat (map ref_entries ?M)) (scene_ref n p)"
          by (intro count_list_concat_ge [of n]) simp_all
        then show ?thesis by simp
      qed
    qed
    show ?thesis
    proof (cases "type_name n = ''Asset''")
      case True
      with file_path_of_kind [OF p] have "reference_filename n \<noteq> []" by auto
      from a [OF this] True show ?thesis by (simp only: c) simp
    next
      case False
      show ?thesis
      proof (cases "reference_filename n \<noteq> []")
        case True
        from a [OF True] um [OF False] False True show ?thesis by (simp only: c) simp
      next
        case False2: False
        from um [OF False] False2 show ?thesis by (simp only: c) simp
      qed
    qed
  qed
  from 1 2 3 show ?thesis by blast
qed

lemma demo_paths:
  "get_node_file_path asset_node = Returned (Some ''/show/hero_v001.rumbanode'')"
  "get_node_file_path usd_node = Returned (Some ''/show/set_v003.usd'')"
  "get_node_file_path media_node = Returned (Some ''/show/plate.mov'')"
  "get_node_file_path empty_media_node = Returned (Some [])"
  "get_node_file_path referenced_usd_node = Returned (Some ''/show/prop_v007.usd'')"
  by (simp_all add: get_node_file_path_def plug_as_string_def asset_node_def usd_node_def
      media_node_def empty_media_node_def referenced_usd_node_def)

lemma demo_all_nodes:
  "all_nodes (root demo_document)
     = [Node [] ''Document'' [] Map.empty [asset_node, referenced_usd_node, empty_media_node],
        asset_node, Node ''hero/geo'' ''Geometry'' [] Map.empty [],
        referenced_usd_node, empty_media_node]"
  by (simp add: demo_document_def document_of_def asset_node_def referenced_usd_node_def
      empty_media_node_def)

lemma demo_node_facts:
  "type_name asset_node = ''Asset''" "reference_filename asset_node \<noteq> []"
  "type_name referenced_usd_node = ''UsdAsset''" "reference_filename referenced_usd_node \<noteq> []"
  "plugs referenced_usd_node ''file_path'' = Some ''/show/prop_v007.usd''"
  "type_name empty_media_node = ''Media''" "reference_filename empty_media_node = []"
  "plugs empty_media_node ''file'' = Some []"
  by (simp_all add: asset_node_def referenced_usd_node_def empty_media_node_def)

theorem scan_scene_entries_witness:
  "active_document (host_of (Some demo_document) ''untitled'') = Some demo_document
   \<and> all_nodes (root demo_document)
       = [Node [] ''Document'' [] Map.empty [asset_node, referenced_usd_node, empty_media_node],
          asset_node, Node ''hero/geo'' ''Geometry'' [] Map.empty [],
          referenced_usd_node, empty_media_node]
   \<and> fst (scan_scene (host_of (Some demo_document) ''untitled''))
       = Returned [scene_ref asset_node ''/show/hero_v001.rumbanode'',
                   scene_ref referenced_usd_node ''/show/prop_v007.usd'',
                   scene_ref referenced_usd_node ''/show/prop_v007.usd'']"
proof -
  have doc: "active_document (host_of (Some demo_document) ''untitled'') = Some demo_document"
    by (simp add: host_of_def)
  have hyp: "\<forall>n \<in> set (all_nodes (root demo_document)). reference_filename n \<noteq> [] \<longrightarrow>
           (type_name n = ''UsdAsset'' \<longrightarrow> plugs n ''file_path'' \<noteq> None)
         \<and> (type_name n = ''Media'' \<longrightarrow> plugs n ''file'' \<noteq> None)"
    by (simp add: demo_all_nodes demo_node_facts)
  from scan_scene_entries [OF doc hyp]
  have "fst (scan_scene (host_of (Some demo_document) ''untitled''))
          = Returned (concat (map ref_entries
         (filter (\<lambda>n. reference_filename n \<noteq> []) (all_nodes (root demo_document))
          @ filter (\<lambda>n. type_name n = ''UsdAsset'' \<and> plugs n ''file_path'' \<noteq> None)
              (all_nodes (root demo_document))
          @ filter (\<lambda>n. type_name n = ''Media'' \<and> plugs n ''file'' \<noteq> None)
              (all_nodes (root demo_document)))))"
    by blast
  then have "fst (scan_scene (host_of (Some demo_document) ''untitled''))
       = Returned [scene_ref asset_node ''/show/hero_v001.rumbanode'',
                   scene_ref referenced_usd_node ''/show/prop_v007.usd'',
                   scene_ref referenced_usd_node ''/show/prop_v007.usd'']"
    by (simp add: demo_all_nodes demo_node_facts ref_entries_cases demo_paths)
  with doc demo_all_nodes show ?thesis by simp
qed

text \<open>
  A \<open>UsdAsset\<close> node with a reference filename is in the scanned list twice, once for
  its reference and once for its plug, and gets two entries, not one, on a document with
  this node alone.
\<close>

theorem scan_scene_twice_counterexample:
  "fst (scan_scene (host_of (Some (document_of [referenced_usd_node])) ''untitled''))
     = Returned [scene_ref referenced_usd_node ''/show/prop_v007.usd'',
                 scene_ref referenced_usd_node ''/show/prop_v007.usd'']
   \<and> all_nodes (root (document_of [referenced_usd_node]))
       = [root (document_of [referenced_usd_node]), referenced_usd_node]
   \<and> get_node_file_path (root (document_of [referenced_usd_node])) = Returned None
   \<and> get_node_file_path referenced_usd_node = Returned (Some ''/show/prop_v007.usd'')"
  by (simp add: scan_scene_def scene_nodes_def host_of_def document_of_def
      get_node_file_path_def plug_as_string_def referenced_usd_node_def)


lemma demo_scan:
  "scan_scene (host_of (Some (document_of [asset_node])) ''untitled'')
     = (Returned [scene_ref asset_node ''/show/hero_v001.rumbanode''],
        emit (Debug ''refs: '') (host_of (Some (document_of [asset_node])) ''untitled''))"
  by (simp add: scan_scene_def scene_nodes_def host_of_def document_of_def
      get_node_file_path_def asset_node_def)



section \<open>Updating the references\<close>

lemma item_node_BreakdownSceneItem:
  "item_node (BreakdownSceneItem n p) = full_document_name n"
  by (simp add: BreakdownSceneItem_def Let_def)

lemmas update_eval =
  update_def Let_def update_item_def scene_ref_def item_node_BreakdownSceneItem child_def
  set_node_file_path_def replace_reference_def write_node_def host_of_def document_of_def
  asset_node_def usd_node_def

lemma lookup_found:
  "lookup_node name t = Some r \<Longrightarrow> r \<in> set (all_nodes t) \<and> full_document_name r = name"
  "lookup_nodes name ts = Some r \<Longrightarrow> r \<in> set (concat (map all_nodes ts)) \<and> full_document_name r = name"
  by (induction name t and name ts rule: lookup_node_lookup_nodes.induct)
     (auto split: if_splits option.splits)

lemma lookup_self:
  "distinct (map full_document_name (all_nodes t)) \<Longrightarrow> n \<in> set (all_nodes t)
     \<Longrightarrow> name = full_document_name n \<Longrightarrow> lookup_node name t = Some n"
  "distinct (map full_document_name (concat (map all_nodes ts)))
     \<Longrightarrow> n \<in> set (concat (map all_nodes ts))
     \<Longrightarrow> name = full_document_name n \<Longrightarrow> lookup_nodes name ts = Some n"
proof (induction name t and name ts rule: lookup_node_lookup_nodes.induct)
  case (1 name nm ty rf pl ch)
  show ?case
  proof (cases "n = Node nm ty rf pl ch")
    case True
    with 1(4) show ?thesis by simp
  next
    case False
    with 1(3) have n: "n \<in> set (concat (map all_nodes ch))" by simp
    with 1(2) have "nm \<noteq> full_document_name n" by (auto simp: image_iff)
    with 1 n show ?thesis by simp
  qed
next
  case (2 name)
  then show ?case by simp
next
  case (3 name t ts)
  show ?case
  proof (cases "n \<in> set (all_nodes t)")
    case True
    with 3 have "lookup_node name t = Some n" by simp
    then show ?thesis by simp
  next
    case False
    with 3(4) have n: "n \<in> set (concat (map all_nodes ts))" by simp
    have "lookup_node name t = None"
    proof (rule ccontr)
      assume "lookup_node name t \<noteq> None"
      then obtain r where "lookup_node name t = Some r" by auto
      from lookup_found(1) [OF this] have "r \<in> set (all_nodes t)" "full_document_name r = name"
        by simp_all
      with 3(3,5) n show False by (auto simp: image_iff)
    qed
    with 3 n show ?thesis by simp
  qed
qed

lemma modify_fixed:
  "lookup_node name t = Some n \<Longrightarrow> f n = n \<Longrightarrow> modify_node name f t = t"
  "lookup_nodes name ts = Some n \<Longrightarrow> f n = n \<Longrightarrow> modify_nodes name f ts = ts"
  by (induction name t and name ts rule: lookup_node_lookup_nodes.induct)
     (auto split: if_splits option.splits)

lemma set_children_same [simp]: "set_children (children t) t = t"
  by (cases t) simp

lemma write_node_fixed:
  assumes "active_document h = Some d" "child d name = Some n" "f n = n"
  shows "active_document (write_node name f h) = Some d"
  using assms modify_fixed(2) [of name "children (root d)" n f]
  by (simp add: write_node_def child_def)

lemma set_node_file_path_same:
  assumes "active_document h = Some d" "child d (full_document_name n) = Some n"
    "get_node_file_path n = Returned (Some p)"
  shows "\<exists>h'. set_node_file_path n p h = (Returned (), h') \<and> active_document h' = Some d"
proof -
  have A: "type_name n = ''Asset'' \<Longrightarrow> set_reference_filename p n = n"
    using assms(3) by (cases n) (simp add: get_node_file_path_def)
  have U: "type_name n = ''UsdAsset'' \<Longrightarrow> plugs n ''file_path'' = Some p"
    using assms(3) by (auto simp: get_node_file_path_def plug_as_string_def split: option.splits)
  have M: "type_name n = ''Media'' \<Longrightarrow> plugs n ''file'' = Some p"
    using assms(3) by (auto simp: get_node_file_path_def plug_as_string_def split: option.splits)
  have S: "plugs n k = Some p \<Longrightarrow> set_plug k p n = n" for k
    by (cases n) (simp add: map_upd_triv)
  show ?thesis
    using assms(1,2) A U M S
    by (auto simp: set_node_file_path_def replace_reference_def plug_set_value_def
        write_node_fixed)
qed

lemma update_item_scanned:
  assumes "active_document h = Some d" "child d (full_document_name n) = Some n"
    "get_node_file_path n = Returned (Some p)"
  shows "\<exists>h'. update_item (scene_ref n p) h = (Returned (), h') \<and> active_document h' = Some d"
proof -
  have "item_node (BreakdownSceneItem n p) = full_document_name n"
    by (simp add: BreakdownSceneItem_def Let_def)
  moreover have "active_document (emit e h) = Some d" for e
    using assms(1) by simp
  ultimately show ?thesis
    using assms set_node_file_path_same [of _ d n p]
    by (simp add: update_item_def scene_ref_def)
qed

lemma update_items_scanned:
  assumes "active_document h = Some d"
    and "\<forall>r \<in> set items. \<exists>n p. r = scene_ref n p \<and> child d (full_document_name n) = Some n
                                  \<and> get_node_file_path n = Returned (Some p)"
  shows "\<exists>h'. update_items items h = (Returned (), h') \<and> active_document h' = Some d"
  using assms
proof (induction items arbitrary: h)
  case Nil
  then show ?case by simp
next
  case (Cons r items)
  then obtain n p where "r = scene_ref n p" "child d (full_document_name n) = Some n"
    "get_node_file_path n = Returned (Some p)" by auto
  with update_item_scanned [OF Cons.prems(1)] obtain h1 where
    h1: "update_item r h = (Returned (), h1)" "active_document h1 = Some d" by blast
  from Cons.IH [OF h1(2)] Cons.prems(2) obtain h2 where
    "update_items items h1 = (Returned (), h2)" "active_document h2 = Some d" by auto
  with h1 show ?case by simp
qed


lemma demo_scan3:
  "scan_scene (host_of (Some (document_of [asset_node, usd_node, media_node])) ''untitled'')
     = (Returned [scene_ref asset_node ''/show/hero_v001.rumbanode'',
                  scene_ref usd_node ''/show/set_v003.usd'',
                  scene_ref media_node ''/show/plate.mov''],
        emit (Debug ''refs: '')
          (host_of (Some (document_of [asset_node, usd_node, media_node])) ''untitled''))"
  by (simp add: scan_scene_def scene_nodes_def host_of_def document_of_def
      get_node_file_path_def plug_as_string_def asset_node_def usd_node_def media_node_def)



section \<open>Loader actions\<close>

lemma calls_emit [simp]: "calls (emit e h) = calls h"
  by (simp add: emit_def)

lemma calls_api [simp]: "calls (api c h) = calls h @ [c]"
  by (simp add: api_def)

lemma resolve_path_emit [simp]: "resolve_path (emit e h) sg = resolve_path h sg"
  by (simp add: resolve_path_def emit_def)

lemma media_extension_emit [simp]:
  "is_a_supported_media_extension (emit e h) path sg = is_a_supported_media_extension h path sg"
  by (simp add: is_a_supported_media_extension_def RUMBA_SUPPORTED_MEDIA_FORMATS_def emit_def)

lemma splitext_append: "fst (splitext p) @ snd (splitext p) = p"
  by (simp add: splitext_def Let_def)

lemma execute_action_unfold:
  "execute_action name params sg h =
     (if name = ''reference'' then
        (if \<not> is_a_supported_extension (resolve_path h sg) sg
         then (Raised (unsupported (resolve_path h sg)), entered name sg h)
         else reference_into_current_document (resolve_path h sg) sg (entered name sg h))
      else if name = ''import'' then
        (if \<not> is_a_supported_extension (resolve_path h sg) sg
         then (Raised (unsupported (resolve_path h sg)), entered name sg h)
         else import_into_current_document (resolve_path h sg) sg (entered name sg h))
      else if name = ''import_media'' then
        (if \<not> is_a_supported_media_extension h (resolve_path h sg) sg
         then (Raised (unsupported (resolve_path h sg)), entered name sg h)
         else import_media_into_new_media_layer (resolve_path h sg) sg (entered name sg h))
      else (Returned (), entered name sg h))"
  by (simp add: execute_action_def entered_def Let_def)

lemma calls_entered [simp]: "calls (entered name sg h) = calls h"
  by (simp add: entered_def)

lemma action_supported_iff:
  "action_supported name h path sg \<longleftrightarrow>
     lower (snd (splitext path))
       \<in> set (if name = ''import_media'' then RUMBA_SUPPORTED_MEDIA_FORMATS h
               else [''.rumbanode'', ''.abc'', ''.usd'', ''.usda'', ''.usdc''])"
  by (simp add: action_supported_def is_a_supported_extension_def
      is_a_supported_media_extension_def RUMBA_SUPPORTED_FORMATS_def Let_def)

text \<open>
  C5. For the action names \<open>reference\<close>, \<open>import\<close> and \<open>import_media\<close> and
  every publish path: when the lower-cased extension of the path is not in the list of the
  action (\<open>RUMBA_SUPPORTED_FORMATS\<close> for the first two, the media formats for the
  third), \<open>execute_action\<close> raises the exception and has made no call into the
  application; when it is in the list, \<open>execute_action\<close> is the reference or import
  operation of that name.
\<close>

theorem execute_action_extension_filter:
  assumes "name \<in> {''reference'', ''import'', ''import_media''}"
  shows "(\<not> action_supported name h (resolve_path h sg) sg \<longrightarrow>
            execute_action name params sg h
              = (Raised (unsupported (resolve_path h sg)), entered name sg h)
            \<and> calls (snd (execute_action name params sg h)) = calls h)
       \<and> (action_supported name h (resolve_path h sg) sg \<longrightarrow>
            execute_action name params sg h
              = action_operation name (resolve_path h sg) sg (entered name sg h))
       \<and> (action_supported name h (resolve_path h sg) sg \<longleftrightarrow>
            lower (snd (splitext (resolve_path h sg)))
              \<in> set (if name = ''import_media'' then RUMBA_SUPPORTED_MEDIA_FORMATS h
                      else [''.rumbanode'', ''.abc'', ''.usd'', ''.usda'', ''.usdc'']))"
proof -
  have names: "''reference'' \<noteq> ''import_media''" "''import'' \<noteq> ''import_media''"
    "''import'' \<noteq> ''reference''"
    by simp_all
  from assms consider "name = ''reference''" | "name = ''import''" | "name = ''import_media''"
    by blast
  then have "(\<not> action_supported name h (resolve_path h sg) sg \<longrightarrow>
            execute_action name params sg h
              = (Raised (unsupported (resolve_path h sg)), entered name sg h))
       \<and> (action_supported name h (resolve_path h sg) sg \<longrightarrow>
            execute_action name params sg h
              = action_operation name (resolve_path h sg) sg (entered name sg h))"
  proof cases
    case 1
    then show ?thesis
      by (simp only: execute_action_unfold action_supported_def action_operation_def names
          if_True if_False simp_thms) simp
  next
    case 2
    then show ?thesis
      by (simp only: execute_action_unfold action_supported_def action_operation_def names
          if_True if_False simp_thms) simp
  next
    case 3
    then show ?thesis
      by (simp only: execute_action_unfold action_supported_def action_operation_def names
          names [symmetric] if_True if_False simp_thms) simp
  qed
  moreover have "calls (snd (Raised (unsupported (resolve_path h sg)), entered name sg h))
      = calls h"
    by simp
  ultimately show ?thesis
    using action_supported_iff [of name h "resolve_path h sg" sg] by metis
qed

lemma splitext_fbx: "splitext ''/show/hero.v1/anim.FBX'' = (''/show/hero.v1/anim'', ''.FBX'')"
  by (simp add: splitext_def rfind_def Let_def)

lemma lower_fbx: "lower ''.FBX'' = ''.fbx''"
  by code_simp

lemma resolve_demo:
  "resolve_path (host_of d f) fbx_publish = ''/show/hero.v1/anim.FBX''"
  "resolve_path (host_of d f) hero_publish = ''/show/hero_v001.rumbanode''"
  by (simp_all add: resolve_path_def host_of_def fbx_publish_def hero_publish_def)

lemma fbx_unsupported:
  "\<not> action_supported ''import'' h ''/show/hero.v1/anim.FBX'' sg"
  by (simp add: action_supported_def is_a_supported_extension_def splitext_fbx
      lower_fbx RUMBA_SUPPORTED_FORMATS_def)

theorem execute_action_extension_filter_witness:
  "''import'' \<in> {''reference'', ''import'', ''import_media''}
   \<and> \<not> action_supported ''import'' (host_of (Some (document_of [])) ''untitled'')
          ''/show/hero.v1/anim.FBX'' fbx_publish
   \<and> fst (execute_action ''import'' None fbx_publish (host_of (Some (document_of [])) ''untitled''))
       = Raised (unsupported ''/show/hero.v1/anim.FBX'')
   \<and> calls (snd (execute_action ''import'' None fbx_publish
                    (host_of (Some (document_of [])) ''untitled''))) = []"
proof -
  have c: "calls (host_of (Some (document_of [])) ''untitled'') = []"
    by (simp add: host_of_def)
  show ?thesis
    using execute_action_extension_filter [of "''import''"
        "host_of (Some (document_of [])) ''untitled''" fbx_publish None]
    by (simp add: resolve_demo fbx_unsupported c)
qed

section \<open>Validating the session\<close>

lemma session_path_cases:
  "session_path h = (if active_document_filename h = ''untitled'' then None
                     else Some (active_document_filename h))"
  by (simp add: session_path_def Let_def)

text \<open>
  C6 (as amended). \<open>session_validate\<close> raises exactly when there is no session path
  to publish: the filename of the active document is \<open>untitled\<close> or is empty. It
  then logs the error with the action button labelled \<open>Save As...\<close> and raises the
  exception with the same message. Otherwise it stores the normalized path under
  \<open>path\<close> in the properties of the item and returns \<open>True\<close>.
\<close>

theorem session_validate_unsaved:
  "session_validate tk item h =
     (if active_document_filename h = ''untitled'' \<or> active_document_filename h = [] then
        (Raised (Exception session_error_msg),
         emit (Error session_error_msg (Some (get_save_as_action tk))) h)
      else
        (Returned (True, item\<lparr>properties :=
            (properties item)(''path'' \<mapsto> PropStr (normalize tk (active_document_filename h)))\<rparr>),
         h))
   \<and> label (get_save_as_action tk) = ''Save As...''"
  by (simp add: session_validate_def session_path_cases get_save_as_action_def Let_def)

theorem session_validate_unsaved_witness:
  "fst (session_validate demo_toolkit bare_item (host_of (Some (document_of [])) ''untitled''))
     = Raised (Exception session_error_msg)
   \<and> logged (snd (session_validate demo_toolkit bare_item
                     (host_of (Some (document_of [])) ''untitled'')))
       = [Error session_error_msg
            (Some \<lparr>label = ''Save As...'', tooltip = ''Save the current session'',
                    callback = ShowFileSaveDlg\<rparr>)]
   \<and> fst (session_validate demo_toolkit bare_item
            (host_of (Some (document_of [])) ''/show/shot010.rumba''))
       = Returned (True, bare_item\<lparr>properties :=
            (properties bare_item)(''path'' \<mapsto> PropStr ''/show/shot010.rumba'')\<rparr>)"
  using session_validate_unsaved [of demo_toolkit bare_item "host_of (Some (document_of [])) ''untitled''"]
    session_validate_unsaved [of demo_toolkit bare_item
      "host_of (Some (document_of [])) ''/show/shot010.rumba''"]
  by (simp add: host_of_def emit_def get_save_as_action_def demo_toolkit_def)

text \<open>
  An empty filename is not \<open>untitled\<close>, the session path is then the empty string
  and not \<open>None\<close>, and validation raises all the same.
\<close>

theorem session_validate_empty_counterexample:
  "active_document_filename unsaved_host \<noteq> ''untitled''
   \<and> session_path unsaved_host = Some []
   \<and> fst (session_validate demo_toolkit bare_item unsaved_host)
       = Raised (Exception session_error_msg)"
  by (simp add: unsaved_host_def host_of_def session_validate_def session_path_def)

section \<open>Several actions\<close>

lemma execute_multiple_actions_Cons:
  "execute_multiple_actions (a # actions) h =
     (case dispatch a h of
        (Raised e, h') \<Rightarrow> (Raised e, h')
      | (Returned u, h') \<Rightarrow> execute_multiple_actions actions h')"
  by (simp add: dispatch_def)

lemma execute_multiple_actions_append:
  "execute_multiple_actions (xs @ ys) h =
     (case execute_multiple_actions xs h of
        (Raised e, h') \<Rightarrow> (Raised e, h')
      | (Returned u, h') \<Rightarrow> execute_multiple_actions ys h')"
proof (induction xs arbitrary: h)
  case Nil
  then show ?case by simp
next
  case (Cons a xs)
  obtain r h' where d: "dispatch a h = (r, h')" by (cases "dispatch a h")
  show ?case
    using Cons [of h'] d
    by (cases r) (simp_all add: execute_multiple_actions_Cons del: execute_multiple_actions.simps)
qed

lemma execute_multiple_actions_returns:
  "all_return actions h \<Longrightarrow> execute_multiple_actions actions h = (Returned (), run_all actions h)"
proof (induction actions arbitrary: h)
  case Nil
  then show ?case by simp
next
  case (Cons a actions)
  obtain r h' where d: "dispatch a h = (r, h')" by (cases "dispatch a h")
  with Cons.prems have "r = Returned ()" "all_return actions h'" by simp_all
  with Cons.IH [of h'] d show ?case
    by (simp add: execute_multiple_actions_Cons del: execute_multiple_actions.simps)
qed

text \<open>
  C7. \<open>execute_multiple_actions\<close> dispatches the actions one by one in list order.
  When every action returns, the call returns and leaves the state in which all of them
  have run in this order. When every action of \<open>pre\<close> returns and the next action
  \<open>a\<close> raises, the call raises the same exception, and the state it leaves is the state
  after the actions of \<open>pre\<close> and then \<open>a\<close> have run in this order: the actions after
  \<open>a\<close> have no part in it.
\<close>

theorem execute_multiple_actions_in_order:
  "(all_return actions h \<longrightarrow>
      execute_multiple_actions actions h = (Returned (), run_all actions h))
   \<and> (all_return pre h \<and> fst (dispatch a (run_all pre h)) = Raised e \<longrightarrow>
      execute_multiple_actions (pre @ a # post) h
        = (Raised e, snd (dispatch a (run_all pre h))))"
proof (intro conjI impI)
  assume "all_return actions h"
  then show "execute_multiple_actions actions h = (Returned (), run_all actions h)"
    by (rule execute_multiple_actions_returns)
next
  assume a: "all_return pre h \<and> fst (dispatch a (run_all pre h)) = Raised e"
  obtain r h' where d: "dispatch a (run_all pre h) = (r, h')"
    by (cases "dispatch a (run_all pre h)")
  with a have "r = Raised e" by simp
  with d show "execute_multiple_actions (pre @ a # post) h
        = (Raised e, snd (dispatch a (run_all pre h)))"
    using execute_multiple_actions_returns [of pre h] a
    by (simp add: execute_multiple_actions_append execute_multiple_actions_Cons
        del: execute_multiple_actions.simps)
qed

lemma is_supported_hero: "is_a_supported_extension ''/show/hero_v001.rumbanode'' sg"
  by (simp add: is_a_supported_extension_def splitext_def rfind_def Let_def lower_def
      lower_char_def RUMBA_SUPPORTED_FORMATS_def)

lemma dispatch_hero:
  "dispatch hero_action (host_of (Some (document_of [])) ''untitled'') =
     (Returned (),
      (host_of (Some (document_of [])) ''untitled'')
        \<lparr>calls := [ModifyBegin ''Shotgun Reference File'',
                    Reference ''/show/hero_v001.rumbanode'' [], ModifyEnd],
         logged := [Debug ''Single Action: '',
                    Debug ''Execute action called for action `reference`. '',
                    Debug ''Publish path: /show/hero_v001.rumbanode'',
                    Debug ''Referencing path: /show/hero_v001.rumbanode'']\<rparr>)"
  by (simp add: dispatch_def hero_action_def execute_action_unfold entered_def
      is_supported_hero reference_into_current_document_def Let_def
      host_of_def emit_def api_def resolve_path_def hero_publish_def)

lemma logged_emit [simp]: "logged (emit e h) = logged h @ [e]"
  by (simp add: emit_def)

lemma dispatch_fbx:
  assumes "path_sep h = CHR ''/''"
  shows "fst (dispatch fbx_action h) = Raised (unsupported ''/show/hero.v1/anim.FBX'')"
    and "calls (snd (dispatch fbx_action h)) = calls h"
    and "logged (snd (dispatch fbx_action h))
           = logged h @ [Debug ''Single Action: '',
                         Debug ''Execute action called for action `import`. '',
                         Debug ''Publish path: /show/hero.v1/anim.FBX'']"
proof -
  have r: "resolve_path h fbx_publish = ''/show/hero.v1/anim.FBX''"
    using assms by (simp add: resolve_path_def fbx_publish_def)
  have d: "dispatch fbx_action h
             = (Raised (unsupported ''/show/hero.v1/anim.FBX''),
                entered ''import'' fbx_publish (emit (Debug ''Single Action: '') h))"
    using fbx_unsupported [unfolded action_supported_def]
    by (simp add: dispatch_def fbx_action_def execute_action_unfold r)
  show "fst (dispatch fbx_action h) = Raised (unsupported ''/show/hero.v1/anim.FBX'')"
    by (simp add: d)
  show "calls (snd (dispatch fbx_action h)) = calls h"
    by (simp add: d)
  show "logged (snd (dispatch fbx_action h))
           = logged h @ [Debug ''Single Action: '',
                         Debug ''Execute action called for action `import`. '',
                         Debug ''Publish path: /show/hero.v1/anim.FBX'']"
    by (simp add: d entered_def r)
qed

theorem execute_multiple_actions_in_order_witness:
  "all_return [hero_action] (host_of (Some (document_of [])) ''untitled'')
   \<and> fst (execute_multiple_actions [hero_action] (host_of (Some (document_of [])) ''untitled''))
       = Returned ()
   \<and> calls (snd (execute_multiple_actions [hero_action]
                    (host_of (Some (document_of [])) ''untitled'')))
       = [ModifyBegin ''Shotgun Reference File'',
          Reference ''/show/hero_v001.rumbanode'' [], ModifyEnd]
   \<and> fst (dispatch fbx_action (run_all [hero_action] (host_of (Some (document_of [])) ''untitled'')))
       = Raised (unsupported ''/show/hero.v1/anim.FBX'')
   \<and> fst (execute_multiple_actions [hero_action, fbx_action, hero_action]
            (host_of (Some (document_of [])) ''untitled''))
       = Raised (unsupported ''/show/hero.v1/anim.FBX'')
   \<and> calls (snd (execute_multiple_actions [hero_action, fbx_action, hero_action]
                    (host_of (Some (document_of [])) ''untitled'')))
       = [ModifyBegin ''Shotgun Reference File'',
          Reference ''/show/hero_v001.rumbanode'' [], ModifyEnd]"
proof -
  let ?h = "host_of (Some (document_of [])) ''untitled''"
  have sep: "path_sep (run_all [hero_action] ?h) = CHR ''/''"
    by (simp add: dispatch_hero) (simp add: host_of_def)
  have ret: "all_return [hero_action] ?h"
    by (simp add: dispatch_hero)
  show ?thesis
    using execute_multiple_actions_in_order [where actions = "[hero_action]"
        and h = "host_of (Some (document_of [])) ''untitled''" and pre = "[hero_action]"
        and a = fbx_action and e = "unsupported ''/show/hero.v1/anim.FBX''"
        and post = "[hero_action]"]
      dispatch_fbx [OF sep] ret
    by (simp add: dispatch_hero del: execute_multiple_actions.simps)
qed

section \<open>Undo brackets\<close>

lemma bracketed_append:
  "bracketed k (xs @ ys) = (bracketed k xs \<and> bracketed (open_after k xs) ys)"
  by (induction k xs rule: bracketed.induct) auto

lemma open_after_append: "open_after k (xs @ ys) = open_after (open_after k xs) ys"
  by (induction k xs rule: open_after.induct) auto

lemma mutations_bracketed:
  "list_all is_mutation cs \<Longrightarrow> 0 < k \<Longrightarrow> bracketed k cs"
  by (induction k cs rule: bracketed.induct) auto

lemma mutations_open_after: "list_all is_mutation cs \<Longrightarrow> open_after k cs = k"
  by (induction k cs rule: open_after.induct) auto

lemma within_bracketsI:
  assumes "calls (snd r) = calls h @ cs" "bracketed 0 cs"
    "fst r = Returned () \<Longrightarrow> open_after 0 cs = 0"
  shows "within_brackets h r"
  using assms by (simp add: within_brackets_def calls_made_def)

lemma calls_set_document [simp]: "calls (set_document d h) = calls h"
  by (simp add: set_document_def)

lemma calls_write_node [simp]: "calls (write_node name f h) = calls h"
  by (simp add: write_node_def split: option.splits)

lemma calls_frame_set_value [simp]:
  "calls (frame_set_value p upd v h) = calls h @ [FrameSetValue p v]"
  by (simp add: frame_set_value_def split: option.splits)

lemma set_node_file_path_calls:
  "\<exists>cs. calls (snd (set_node_file_path n path h)) = calls h @ cs \<and> list_all is_mutation cs"
  by (simp add: set_node_file_path_def replace_reference_def plug_set_value_def
      split: option.splits)

lemma update_item_calls:
  "\<exists>cs. calls (snd (update_item i h)) = calls h @ cs \<and> list_all is_mutation cs"
proof -
  have "\<exists>cs. calls (snd (set_node_file_path n path (emit e h))) = calls h @ cs
             \<and> list_all is_mutation cs" for n path e
    using set_node_file_path_calls [of n path "emit e h"] by simp
  then show ?thesis
    by (simp add: update_item_def Let_def split: option.splits ref_value.splits)
qed

lemma update_items_calls:
  "\<exists>cs. calls (snd (update_items items h)) = calls h @ cs \<and> list_all is_mutation cs"
proof (induction items arbitrary: h)
  case Nil
  then show ?case by simp
next
  case (Cons i items)
  obtain r h1 where u: "update_item i h = (r, h1)" by (cases "update_item i h")
  from update_item_calls [of i h] u obtain cs1 where
    cs1: "calls h1 = calls h @ cs1" "list_all is_mutation cs1" by auto
  show ?case
  proof (cases r)
    case (Raised e)
    with u cs1 show ?thesis by simp
  next
    case (Returned x)
    from Cons [of h1] obtain cs2 where
      "calls (snd (update_items items h1)) = calls h1 @ cs2" "list_all is_mutation cs2" by blast
    with Returned u cs1 show ?thesis by simp
  qed
qed

lemma update_within_brackets: "within_brackets h (update items h)"
proof (cases "active_document h")
  case None
  then show ?thesis
    by (intro within_bracketsI [where cs = "[]"]) (simp_all add: update_def Let_def)
next
  case (Some d)
  let ?h1 = "api (ModifyBegin ''Shotgun Update References'') (emit (Debug ''items: '') h)"
  obtain r h2 where u: "update_items items ?h1 = (r, h2)" by (cases "update_items items ?h1")
  from update_items_calls [of items ?h1] u obtain cs where
    cs: "calls h2 = calls h @ ModifyBegin ''Shotgun Update References'' # cs"
      "list_all is_mutation cs" by auto
  have b: "bracketed (Suc 0) cs" "open_after (Suc 0) cs = Suc 0"
    using cs(2) by (simp_all add: mutations_bracketed mutations_open_after)
  show ?thesis
  proof (cases r)
    case (Raised e)
    with Some u have "update items h = (Raised e, h2)"
      by (simp add: update_def Let_def)
    then show ?thesis
      using cs b
      by (intro within_bracketsI [where cs = "ModifyBegin ''Shotgun Update References'' # cs"])
         simp_all
  next
    case (Returned x)
    with Some u have "update items h = (Returned (), api ModifyEnd h2)"
      by (simp add: update_def Let_def)
    then show ?thesis
      using cs b
      by (intro within_bracketsI
            [where cs = "(ModifyBegin ''Shotgun Update References'' # cs) @ [ModifyEnd]"])
         (simp_all add: bracketed_append open_after_append)
  qed
qed

lemma set_frame_range_within_brackets:
  "within_brackets h (set_frame_range in_frame out_frame h)"
proof (cases "active_document h")
  case None
  then show ?thesis
    by (intro within_bracketsI [where cs = "[]"]) (simp_all add: set_frame_range_def)
next
  case (Some d)
  show ?thesis
  proof (cases "\<exists>a b. in_frame = PyInt a \<and> out_frame = PyInt b")
    case True
    then obtain a b where "in_frame = PyInt a" "out_frame = PyInt b" by blast
    with Some show ?thesis
      by (intro within_bracketsI [where cs = "[ModifyBegin ''Shotgun Update Frame Range'',
            FrameSetValue ''start_frame'' a, FrameSetValue ''end_frame'' b,
            FrameSetValue ''range_start_frame'' a, FrameSetValue ''range_end_frame'' b,
            ModifyEnd]"])
         (simp_all add: set_frame_range_def py_int_def Let_def)
  next
    case False
    then have "snd (set_frame_range in_frame out_frame h) = h"
      using Some
      by (cases in_frame; cases out_frame) (simp_all add: set_frame_range_def py_int_def)
    then show ?thesis
      by (intro within_bracketsI [where cs = "[]"]) simp_all
  qed
qed

lemma reference_within_brackets:
  "calls h0 = calls h \<Longrightarrow> within_brackets h (reference_into_current_document path sg h0)"
  by (cases "active_document h0"; cases "path \<in> existing_paths h0")
     (simp_all add: reference_into_current_document_def Let_def within_brackets_def
       calls_made_def)

lemma import_within_brackets:
  "calls h0 = calls h \<Longrightarrow> within_brackets h (import_into_current_document path sg h0)"
  by (cases "active_document h0"; cases "path \<in> existing_paths h0")
     (simp_all add: import_into_current_document_def Let_def within_brackets_def
       calls_made_def)

lemma import_media_within_brackets:
  "calls h0 = calls h \<Longrightarrow> within_brackets h (import_media_into_new_media_layer path sg h0)"
  by (cases "active_document h0"; cases "path \<in> existing_paths h0")
     (simp_all add: import_media_into_new_media_layer_def Let_def within_brackets_def
       calls_made_def)

lemma execute_action_within_brackets:
  "within_brackets h (execute_action name params sg h)"
proof -
  have e: "calls (entered name sg h) = calls h" by simp
  have r: "within_brackets h (Raised x, entered name sg h)" for x
    by (simp add: within_brackets_def calls_made_def)
  have q: "within_brackets h (Returned (), entered name sg h)"
    by (simp add: within_brackets_def calls_made_def)
  show ?thesis
    unfolding execute_action_unfold
    using reference_within_brackets [OF e] import_within_brackets [OF e]
      import_media_within_brackets [OF e] r q
    by (simp only: split: if_splits) simp
qed


lemma update_hero:
  "fst (update [scene_ref asset_node ''/show/hero_v002.rumbanode'']
          (host_of (Some (document_of [asset_node])) ''untitled'')) = Returned ()"
  "calls (snd (update [scene_ref asset_node ''/show/hero_v002.rumbanode'']
          (host_of (Some (document_of [asset_node])) ''untitled'')))
     = [ModifyBegin ''Shotgun Update References'',
        ReplaceReference ''hero'' ''/show/hero_v002.rumbanode'', ModifyEnd]"
  by (simp_all add: update_eval)



section \<open>Asset names\<close>

lemma filter_dropWhile_not: "filter (\<lambda>c. \<not> P c) (dropWhile P xs) = filter (\<lambda>c. \<not> P c) xs"
  by (induction xs) auto

lemma re_sub_runs_filter: "re_sub_runs cls [] s = filter (\<lambda>c. \<not> cls c) s"
  by (induction cls "[] :: string" s rule: re_sub_runs.induct)
     (auto simp: filter_dropWhile_not)

lemma alphanumeric_sub_filter:
  "alphanumeric_sub alnum s = filter (\<lambda>c. alnum c \<and> c \<noteq> CHR ''_'') s"
  unfolding alphanumeric_sub_def re_sub_runs_filter
  by (rule filter_cong) (auto simp: nonword_or_underscore_def)

lemma collect_assets_items:
  "fst (collect_assets body entries items h) = items @ map (fst \<circ> body) entries"
  by (induction entries arbitrary: items h) (auto split: prod.splits)

lemma extra_fields_name_set_property:
  "extra_fields_name (set_property ''extra_fields'' (PropFields [''name'' \<mapsto> s]) item) = Some s"
  by (simp add: extra_fields_name_def set_property_def)

lemma asset_item_names:
  "extra_fields_name (fst (fbx_asset_item alnum tk st e)) = Some (alphanumeric_sub alnum (fst e))"
  "extra_fields_name (fst (usd_asset_item alnum tk st e)) = Some (alphanumeric_sub alnum (fst e))"
  "extra_fields_name (fst (abc_asset_item alnum tk st e)) = Some (alphanumeric_sub alnum (fst e))"
  by (simp_all add: fbx_asset_item_def usd_asset_item_def abc_asset_item_def Let_def
      extra_fields_name_set_property)

lemma stored_names_collect:
  assumes "active_document_filename h \<noteq> ''untitled''" "active_document_filename h \<noteq> []"
  shows "stored_names (case collect_assets body entries [] h of (items, h') \<Rightarrow> (Some items, h'))
           = Some (map (extra_fields_name \<circ> fst \<circ> body) entries)"
  using collect_assets_items [of body entries "[]" h]
  by (cases "collect_assets body entries [] h") (simp add: stored_names_def)

text \<open>
  C10. With a session path, each of the three collectors returns one item for every entry
  of \<open>by_asset_node\<close>, in its order, and the \<open>name\<close> in the \<open>extra_fields\<close>
  of the item is the asset name without its underscores and its non-alphanumeric
  characters; the three collectors store the same names. Replacing the maximal runs of
  the class by the empty string removes exactly these characters, and what is left is
  alphanumeric.
\<close>

theorem collectors_store_alphanumeric_names:
  assumes "active_document_filename h \<noteq> ''untitled''" and "active_document_filename h \<noteq> []"
  shows "stored_names (collect_rumba_fbx_assets alnum tk st by_asset_node h)
           = Some (map (\<lambda>e. Some (filter (\<lambda>c. alnum c \<and> c \<noteq> CHR ''_'') (fst e))) by_asset_node)
       \<and> stored_names (collect_rumba_usd_assets alnum tk st by_asset_node h)
           = stored_names (collect_rumba_fbx_assets alnum tk st by_asset_node h)
       \<and> stored_names (collect_rumba_abc_assets alnum tk st by_asset_node h)
           = stored_names (collect_rumba_fbx_assets alnum tk st by_asset_node h)
       \<and> (\<forall>e \<in> set by_asset_node. alphanumeric_sub alnum (fst e)
              = filter (\<lambda>c. alnum c \<and> c \<noteq> CHR ''_'') (fst e)
            \<and> (\<forall>c \<in> set (alphanumeric_sub alnum (fst e)). alnum c))"
proof -
  have sp: "session_path h = Some (active_document_filename h)"
    using assms by (simp add: session_path_def)
  have f: "stored_names (collect_rumba_fbx_assets alnum tk st by_asset_node h)
           = Some (map (\<lambda>e. Some (alphanumeric_sub alnum (fst e))) by_asset_node)"
    using assms stored_names_collect [OF assms, of "fbx_asset_item alnum tk st" by_asset_node]
    by (simp add: collect_rumba_fbx_assets_def sp comp_def asset_item_names)
  have u: "stored_names (collect_rumba_usd_assets alnum tk st by_asset_node h)
           = Some (map (\<lambda>e. Some (alphanumeric_sub alnum (fst e))) by_asset_node)"
    using assms stored_names_collect [OF assms, of "usd_asset_item alnum tk st" by_asset_node]
    by (simp add: collect_rumba_usd_assets_def sp comp_def asset_item_names)
  have a: "stored_names (collect_rumba_abc_assets alnum tk st by_asset_node h)
           = Some (map (\<lambda>e. Some (alphanumeric_sub alnum (fst e))) by_asset_node)"
    using assms stored_names_collect [OF assms, of "abc_asset_item alnum tk st" by_asset_node]
    by (simp add: collect_rumba_abc_assets_def sp comp_def asset_item_names)
  show ?thesis
    by (simp add: f u a) (simp add: alphanumeric_sub_filter)
qed

theorem collectors_store_alphanumeric_names_witness:
  "active_document_filename (host_of (Some (document_of [])) ''/show/shot010.rumba'') \<noteq> ''untitled''
   \<and> active_document_filename (host_of (Some (document_of [])) ''/show/shot010.rumba'') \<noteq> []
   \<and> stored_names (collect_rumba_fbx_assets ascii_alnum demo_toolkit Map.empty demo_assets
        (host_of (Some (document_of [])) ''/show/shot010.rumba''))
       = Some [Some ''hero01left'', Some ''setA'']
   \<and> stored_names (collect_rumba_usd_assets ascii_alnum demo_toolkit Map.empty demo_assets
        (host_of (Some (document_of [])) ''/show/shot010.rumba''))
       = Some [Some ''hero01left'', Some ''setA'']
   \<and> stored_names (collect_rumba_abc_assets ascii_alnum demo_toolkit Map.empty demo_assets
        (host_of (Some (document_of [])) ''/show/shot010.rumba''))
       = Some [Some ''hero01left'', Some ''setA'']"
proof -
  let ?h = "host_of (Some (document_of [])) ''/show/shot010.rumba''"
  have n: "active_document_filename ?h \<noteq> ''untitled''" "active_document_filename ?h \<noteq> []"
    by (simp_all add: host_of_def)
  have names: "map (\<lambda>e. Some (filter (\<lambda>c. ascii_alnum c \<and> c \<noteq> CHR ''_'') (fst e))) demo_assets
                 = [Some ''hero01left'', Some ''setA'']"
    by code_simp
  note t = collectors_store_alphanumeric_names [OF n, of ascii_alnum demo_toolkit Map.empty
      demo_assets]
  from t have fbx: "stored_names (collect_rumba_fbx_assets ascii_alnum demo_toolkit Map.empty
      demo_assets ?h) = Some [Some ''hero01left'', Some ''setA'']"
    by (simp only: names)
  moreover from t have "stored_names (collect_rumba_usd_assets ascii_alnum demo_toolkit Map.empty
      demo_assets ?h) = Some [Some ''hero01left'', Some ''setA'']"
    by (simp only: fbx)
  moreover from t have "stored_names (collect_rumba_abc_assets ascii_alnum demo_toolkit Map.empty
      demo_assets ?h) = Some [Some ''hero01left'', Some ''setA'']"
    by (simp only: fbx)
  ultimately show ?thesis
    using n by blast
qed

end
